theory Spec2Isabelle
  imports Main "HOL-Library.Sublist" "HOL-Library.AList"
begin

section \<open>Data model\<close>

text \<open>
  The two modules under verification are \<^verbatim>\<open>lib/context.js\<close> (the tree builder) and
  \<^verbatim>\<open>lib/confluence-syncer.js\<close> (home resolver, reconciliation engine, cleanup).
  Page objects are records. \<^verbatim>\<open>new Meta(repo_url, relPath, sha)\<close> is the record
  \<open>meta\<close>; \<^verbatim>\<open>new Meta(repo)\<close> leaves \<^verbatim>\<open>path\<close> and \<^verbatim>\<open>sha\<close> undefined, and since no
  code of the two modules reads them on such a page they are stored as empty strings.
  \<^verbatim>\<open>null\<close>/\<^verbatim>\<open>undefined\<close> in an optional field is \<open>None\<close>. A string is the list of
  the bytes of its UTF-8 encoding (JavaScript strings are taken to be well-formed
  Unicode): concatenation, equality, \<^verbatim>\<open>startsWith\<close> and the test for the empty string
  are the same on both sides, and the only position the code computes
  (\<^verbatim>\<open>indexOf('/docs/') + 6\<close>) is used to cut the string right after an ASCII match.
  Of a remote page the two modules read \<^verbatim>\<open>id\<close>, \<^verbatim>\<open>title\<close> and \<^verbatim>\<open>meta\<close>; \<open>rparent\<close> is
  the \<^verbatim>\<open>parentId\<close> of the spec's data model, which only the in-memory store of the
  examples reads.
\<close>

record meta =
  repo :: string
  path :: string
  sha :: string

record local_page =
  title :: string
  meta :: meta
  parentPath :: "string option"
  parentPageId :: "nat option"
  html :: "string option"

record remote_page =
  rid :: nat
  rtitle :: string
  rmeta :: meta
  rparent :: "nat option"

text \<open>
  An element of the \<^verbatim>\<open>union\<close> array of \<^verbatim>\<open>processLevel\<close>, and the receiver of
  \<^verbatim>\<open>sync\<close>: a local page with no remote counterpart, or a remote page together with
  its \<^verbatim>\<open>localPage\<close> property. That property is written by the syncer only
  (\<^verbatim>\<open>remotePage.localPage = localPage\<close>); on a page as the remote store returns it,
  it is unset.
\<close>

datatype page = Local local_page | Remote remote_page "local_page option"

text \<open>Every \<^verbatim>\<open>throw\<close> site of the two modules, and a rejection coming from a collaborator.\<close>

datatype error =
    NavMissing
  | RepoUrlMissing
  | NoTitle string
  | ParentPageMissing string
  | RepoConflict string string
  | TypeError
  | RemoteError string

section \<open>Strings and paths\<close>

text \<open>\<^verbatim>\<open>s.indexOf(sub)\<close>: the first position where \<open>sub\<close> occurs, \<open>None\<close> for \<open>-1\<close>.\<close>

fun indexOf :: "string \<Rightarrow> string \<Rightarrow> nat option" where
  "indexOf [] sub = (if sub = [] then Some 0 else None)"
| "indexOf (c # cs) sub =
     (if prefix sub (c # cs) then Some 0 else map_option Suc (indexOf cs sub))"

text \<open>\<^verbatim>\<open>s.split(path.sep)\<close> and \<^verbatim>\<open>parts.join(path.sep)\<close> with the POSIX separator.\<close>

fun split_sep :: "string \<Rightarrow> string list" where
  "split_sep [] = [[]]"
| "split_sep (c # cs) =
     (if c = CHR ''/'' then [] # split_sep cs
      else (case split_sep cs of [] \<Rightarrow> [[c]] | w # ws \<Rightarrow> (c # w) # ws))"

fun join_sep :: "string list \<Rightarrow> string" where
  "join_sep [] = []"
| "join_sep [w] = w"
| "join_sep (w # ws) = w @ CHR ''/'' # join_sep ws"

text \<open>
  \<^verbatim>\<open>path.dirname\<close> (POSIX). Node scans from the last character down to index 1,
  skips trailing slashes, and stops at the first slash after a non-slash character;
  \<open>r\<close> below is what is left of characters \<open>1..\<close> up to and including that slash,
  reversed, so its length is the index \<^verbatim>\<open>end\<close> (and \<open>r = []\<close> is \<^verbatim>\<open>end === -1\<close>).
\<close>

definition dirname :: "string \<Rightarrow> string" where
  "dirname p =
     (if p = [] then ''.''
      else
        let hasRoot = (hd p = CHR ''/'');
            r = dropWhile (\<lambda>c. c \<noteq> CHR ''/'') (dropWhile (\<lambda>c. c = CHR ''/'') (rev (tl p)))
        in if r = [] then (if hasRoot then ''/'' else ''.'')
           else if hasRoot \<and> length r = 1 then ''//''
           else take (length r) p)"

section \<open>context.js\<close>

text \<open>
  What the two modules read from their surroundings: the working directory, the file
  system, the configuration (\<^verbatim>\<open>config.confluence.titlePrefix\<close> and
  \<^verbatim>\<open>config.confluence.parentPage\<close>), Node's \<^verbatim>\<open>path.resolve\<close> and \<^verbatim>\<open>path.relative\<close>,
  and the \<^verbatim>\<open>String.prototype.trim\<close> of the JavaScript engine. They are parameters of
  the model.
\<close>

record env =
  cwd :: string
  existsSync :: "string \<Rightarrow> bool"
  fileHash :: "string \<Rightarrow> string"
  titlePrefix :: string
  parentPage :: "string option"
  resolve :: "string list \<Rightarrow> string"
  relative :: "string \<Rightarrow> string \<Rightarrow> string"
  trim :: "string \<Rightarrow> string"

text \<open>The observable effects of \<^verbatim>\<open>getPage\<close>, in the order they happen.\<close>

datatype io_event =
    ExistsSync string
  | FileHash string
  | WarnNotFound string string

text \<open>
  A \<^verbatim>\<open>nav\<close> entry: a bare string, \<^verbatim>\<open>{title: path}\<close> or \<^verbatim>\<open>{title: [entries]}\<close>
  (only the first key of an entry is read). An entry whose value is neither a string
  nor an array makes \<^verbatim>\<open>path.resolve\<close> throw, and is not modelled.
\<close>

datatype nav_item =
    Bare string
  | Leaf string string
  | Section string "nav_item list"

text \<open>The parsed \<^verbatim>\<open>mkdocs.yml\<close>; \<open>None\<close> for a \<^verbatim>\<open>nav\<close> that is not an array and for
  a \<^verbatim>\<open>repo_url\<close> that is not a string. \<^verbatim>\<open>loadConfig\<close> is modelled from the parsed file
  on: reading and parsing it are the file system's and the YAML library's.\<close>

record mkdocs =
  nav :: "nav_item list option"
  repo_url :: "string option"
  site_name :: string

definition loadConfig :: "env \<Rightarrow> mkdocs \<Rightarrow> error + (nav_item list \<times> string \<times> string)" where
  "loadConfig e json =
     (case nav json of
        None \<Rightarrow> Inl NavMissing
      | Some n \<Rightarrow>
          (case repo_url json of
             None \<Rightarrow> Inl RepoUrlMissing
           | Some r \<Rightarrow>
               if length (trim e r) = 0 then Inl RepoUrlMissing
               else Inr (n, r, site_name json)))"

definition getPage ::
  "env \<Rightarrow> string \<Rightarrow> string \<Rightarrow> string \<Rightarrow> string \<Rightarrow> local_page option \<times> io_event list" where
  "getPage e repo_url' title' pagePath titlePrefix' =
     (let safe = prefix (cwd e) pagePath;
          exists = (safe \<and> existsSync e pagePath);
          relPath = relative e (cwd e) pagePath
      in if \<not> exists
         then (None, (if safe then [ExistsSync pagePath] else []) @ [WarnNotFound title' relPath])
         else (Some \<lparr>title = trim e (titlePrefix' @ '' '' @ title'),
                      meta = \<lparr>repo = repo_url', path = relPath, sha = fileHash e pagePath\<rparr>,
                      parentPath = None, parentPageId = None, html = None\<rparr>,
               [ExistsSync pagePath, FileHash pagePath]))"

text \<open>
  The JavaScript \<^verbatim>\<open>Map\<close> \<^verbatim>\<open>sectionHierarchy\<close> is an association list in insertion
  order; \<^verbatim>\<open>Map.set\<close> is \<^const>\<open>AList.update\<close>, which overwrites the value of a key
  that is present, in place, and appends a new key.
\<close>

type_synonym hierarchy = "(string \<times> string option) list"

record tstate =
  pages :: "local_page list"
  sectionHierarchy :: hierarchy
  io_log :: "io_event list"

fun traverse ::
    "env \<Rightarrow> string \<Rightarrow> nav_item list \<Rightarrow> string \<Rightarrow> string option \<Rightarrow> tstate \<Rightarrow> error + tstate"
  and traverse_item ::
    "env \<Rightarrow> string \<Rightarrow> nav_item \<Rightarrow> string \<Rightarrow> string option \<Rightarrow> tstate \<Rightarrow> error + tstate"
where
  "traverse e repo_url' [] basePath parentSection st = Inr st"
| "traverse e repo_url' (item # items) basePath parentSection st =
     (case traverse_item e repo_url' item basePath parentSection st of
        Inl err \<Rightarrow> Inl err
      | Inr st' \<Rightarrow> traverse e repo_url' items basePath parentSection st')"
| "traverse_item e repo_url' (Bare item) basePath parentSection st = Inl (NoTitle item)"
| "traverse_item e repo_url' (Section pageTitle pagePath) basePath parentSection st =
     traverse e repo_url' pagePath basePath (Some pageTitle)
       (st\<lparr>sectionHierarchy := AList.update pageTitle parentSection (sectionHierarchy st)\<rparr>)"
| "traverse_item e repo_url' (Leaf pageTitle pagePath) basePath parentSection st =
     (case getPage e repo_url' pageTitle (resolve e [basePath, ''docs'', pagePath]) (titlePrefix e) of
        (None, l) \<Rightarrow> Inr (st\<lparr>io_log := io_log st @ l\<rparr>)
      | (Some page, l) \<Rightarrow>
          Inr (st\<lparr>pages := pages st @ [page\<lparr>parentPath := parentSection\<rparr>],
                  io_log := io_log st @ l\<rparr>))"

text \<open>The \<^verbatim>\<open>for (len = parts.length; len > 0; len--)\<close> loop of
  \<^verbatim>\<open>inferSectionDirectory\<close>.\<close>

fun longest_prefix :: "string list \<Rightarrow> string list \<Rightarrow> nat \<Rightarrow> string option" where
  "longest_prefix parts relativePaths 0 = None"
| "longest_prefix parts relativePaths (Suc len) =
     (let prefix' = join_sep (take (Suc len) parts)
      in if list_all (\<lambda>p. prefix prefix' p) relativePaths then Some prefix'
         else longest_prefix parts relativePaths len)"

text \<open>The callback of \<^verbatim>\<open>children.map\<close> in \<^verbatim>\<open>inferSectionDirectory\<close>: what follows the
  first \<^verbatim>\<open>/docs/\<close> in the child's path, without the file name.\<close>

definition relativePathOf :: "local_page \<Rightarrow> string option" where
  "relativePathOf child =
     (let fullPath = path (meta child)
      in case indexOf fullPath ''/docs/'' of
           None \<Rightarrow> None
         | Some docsIndex \<Rightarrow> Some (dirname (drop (docsIndex + 6) fullPath)))"

definition inferSectionDirectory :: "local_page list \<Rightarrow> string option" where
  "inferSectionDirectory children =
     (if length children = 0 then None
      else
        let relativePaths = List.map_filter relativePathOf children
        in if length relativePaths = 0 then None
           else
             let firstPath = hd relativePaths
             in if list_all (\<lambda>p. p = firstPath) relativePaths then Some firstPath
                else
                  let parts = split_sep firstPath
                  in longest_prefix parts relativePaths (length parts))"

fun createSectionPages ::
  "env \<Rightarrow> string \<Rightarrow> string \<Rightarrow> local_page list \<Rightarrow> hierarchy \<Rightarrow> local_page list \<times> io_event list"
where
  "createSectionPages e repo_url' basePath pages' [] = ([], [])"
| "createSectionPages e repo_url' basePath pages' ((sectionName, parentSection) # entries) =
     (let sectionChildren = filter (\<lambda>p. parentPath p = Some sectionName) pages';
          (rest, l') = createSectionPages e repo_url' basePath pages' entries
      in if length sectionChildren = 0 then (rest, l')
         else
           (case inferSectionDirectory sectionChildren of
              None \<Rightarrow> (rest, l')
            | Some sectionDir \<Rightarrow>
                if sectionDir = [] then (rest, l')
                else
                  (case getPage e repo_url' sectionName
                          (resolve e [basePath, ''docs'', sectionDir, ''README.md''])
                          (titlePrefix e) of
                     (None, l) \<Rightarrow> (rest, l @ l')
                   | (Some readmePage, l) \<Rightarrow>
                       (readmePage\<lparr>parentPath := parentSection\<rparr> # rest, l @ l'))))"

text \<open>
  \<^verbatim>\<open>pageRefs\<close> and the \<^verbatim>\<open>sectionHierarchy\<close> of the context are plain objects. An
  object is the association list of its own properties in the order they were
  created. \<^verbatim>\<open>obj[key] = value\<close> is \<open>assign\<close>: it overwrites an own property in place
  and creates a new one last, except that on an object with no own property
  \<^verbatim>\<open>__proto__\<close> the key \<^verbatim>\<open>__proto__\<close> reaches the setter of \<^verbatim>\<open>Object.prototype\<close>,
  which ignores a string. \<^verbatim>\<open>Object.fromEntries\<close> defines own properties, so for it
  \<^verbatim>\<open>__proto__\<close> is a key like any other. An object enumerates its array-index keys
  (the canonical decimal numerals below \<open>2\<^sup>3\<^sup>2 - 1\<close>) first, in ascending order, and
  then the other keys in creation order: \<open>ownEntries\<close>.
\<close>

definition assign :: "string \<Rightarrow> 'a \<Rightarrow> (string \<times> 'a) list \<Rightarrow> (string \<times> 'a) list" where
  "assign k v obj =
     (if k = ''__proto__'' \<and> map_of obj k = None then obj else AList.update k v obj)"

definition isDigit :: "char \<Rightarrow> bool" where
  "isDigit c = (48 \<le> (of_char c :: int) \<and> (of_char c :: int) \<le> 57)"

definition decimal :: "string \<Rightarrow> int" where
  "decimal k = foldl (\<lambda>n c. 10 * n + (of_char c - 48)) 0 k"

definition isArrayIndex :: "string \<Rightarrow> bool" where
  "isArrayIndex k =
     (k \<noteq> [] \<and> list_all isDigit k \<and> (k = ''0'' \<or> hd k \<noteq> CHR ''0'') \<and>
      decimal k < 2 ^ 32 - 1)"

definition ownEntries :: "(string \<times> 'a) list \<Rightarrow> (string \<times> 'a) list" where
  "ownEntries obj =
     sort_key (\<lambda>kv. decimal (fst kv)) (filter (\<lambda>kv. isArrayIndex (fst kv)) obj) @
     filter (\<lambda>kv. \<not> isArrayIndex (fst kv)) obj"

text \<open>The context object, with its two plain objects as they enumerate.\<close>

record site_context =
  siteName :: string
  ctx_repo :: string
  ctx_pages :: "local_page list"
  pageRefs :: "(string \<times> string) list"
  ctx_sectionHierarchy :: hierarchy
  readMe :: "local_page option"

definition getContext :: "env \<Rightarrow> string \<Rightarrow> mkdocs \<Rightarrow> error + (site_context \<times> io_event list)" where
  "getContext e basePath json =
     (case loadConfig e json of
        Inl err \<Rightarrow> Inl err
      | Inr (nav', repo_url', site_name') \<Rightarrow>
          (case traverse e repo_url' nav' basePath None
                  \<lparr>pages = [], sectionHierarchy = [], io_log = []\<rparr> of
             Inl err \<Rightarrow> Inl err
           | Inr st \<Rightarrow>
               let (readMe', l1) = getPage e repo_url' site_name' (resolve e [basePath, ''README.md'']) [];
                   (sectionPages, l2) =
                      createSectionPages e repo_url' basePath (pages st) (sectionHierarchy st);
                   pages' = pages st @ sectionPages;
                   pageRefs' =
                      foldl (\<lambda>obj page. assign (path (meta page)) (title page) obj)
                        (case readMe' of
                           None \<Rightarrow> []
                         | Some r \<Rightarrow> [(path (meta r), title r)])
                        pages'
               in Inr (\<lparr>siteName = site_name', ctx_repo = repo_url', ctx_pages = pages',
                        pageRefs = ownEntries pageRefs',
                        ctx_sectionHierarchy = ownEntries (sectionHierarchy st),
                        readMe = readMe'\<rparr>,
                       io_log st @ l1 @ l2)))"

section \<open>confluence-syncer.js\<close>

text \<open>
  The remote store and the per-page sync operation are collaborators whose code is not
  part of the two modules: \<^verbatim>\<open>confluence.findPage\<close>, \<^verbatim>\<open>confluence.getChildPages\<close>,
  \<^verbatim>\<open>confluence.deletePage\<close> and \<^verbatim>\<open>page.sync(renderer, confluence)\<close>. They are
  parameters: functions of an abstract world \<open>'w\<close> (the remote space, the renderer, and
  whatever else they touch) that return the resolved value or the rejection, and the
  new world. \<^verbatim>\<open>getChildPages\<close> resolves to a \<^verbatim>\<open>Map\<close> from source path to remote page,
  an association list in iteration order.

  \<^verbatim>\<open>page.sync\<close> resolves to \<^verbatim>\<open>undefined\<close> (\<open>NoPage\<close>) or to an object whose \<^verbatim>\<open>id\<close>
  may be undefined (\<open>PageWithId None\<close>).
\<close>

datatype sync_result = NoPage | PageWithId "nat option"

record 'w confluence =
  findPage :: "string \<Rightarrow> 'w \<Rightarrow> (error + remote_page option) \<times> 'w"
  getChildPages :: "nat option \<Rightarrow> 'w \<Rightarrow> (error + (string \<times> remote_page) list) \<times> 'w"
  deletePage :: "nat \<Rightarrow> 'w \<Rightarrow> (error + unit) \<times> 'w"
  syncPage :: "page \<Rightarrow> 'w \<Rightarrow> (error + sync_result) \<times> 'w"

text \<open>
  The calls a run makes to the collaborators, in order. \<open>LevelFetch k pid\<close> is the
  \<^verbatim>\<open>getChildPages(parentPageId)\<close> call of \<^verbatim>\<open>processLevel(k)\<close>; \<open>SyncPage p r\<close> is a
  \<^verbatim>\<open>p.sync\<close> that resolved to \<open>r\<close>, \<open>SyncFailed p err\<close> one that was rejected.
\<close>

datatype event =
    FindPage string
  | GetChildPages "nat option"
  | LevelFetch "string option" "nat option"
  | SyncPage page sync_result
  | SyncFailed page error
  | DeletePage nat

text \<open>
  The state of a run: the world, the calls made so far, and the \<^verbatim>\<open>syncedPages\<close> map of
  \<^verbatim>\<open>syncPages\<close> (keys are titles and \<^verbatim>\<open>null\<close>; only \<^verbatim>\<open>get\<close> and \<^verbatim>\<open>set\<close> are used,
  and a key bound to \<^verbatim>\<open>undefined\<close> reads like an absent key).
\<close>

record 'w state =
  world :: 'w
  syncedPages :: "string option \<Rightarrow> nat option"
  trace :: "event list"

datatype outcome = Done | Failed error | OutOfFuel

text \<open>The state after the call \<open>ev\<close>, which left the world \<open>w\<close>.\<close>

definition called :: "event \<Rightarrow> 'w \<Rightarrow> 'w state \<Rightarrow> 'w state" where
  "called ev w st = st\<lparr>world := w, trace := trace st @ [ev]\<rparr>"

definition findParentPage :: "'w confluence \<Rightarrow> env \<Rightarrow> 'w state \<Rightarrow> (error + nat option) \<times> 'w state" where
  "findParentPage confluence e st =
     (case parentPage e of
        None \<Rightarrow> (Inr None, st)
      | Some title' \<Rightarrow>
          if title' = [] then (Inr None, st)
          else
            (case findPage confluence title' (world st) of
               (Inl err, w) \<Rightarrow> (Inl err, called (FindPage title') w st)
             | (Inr None, w) \<Rightarrow> (Inl (ParentPageMissing title'), called (FindPage title') w st)
             | (Inr (Some parentPage'), w) \<Rightarrow>
                 (Inr (Some (rid parentPage')), called (FindPage title') w st)))"

text \<open>
  Modelled from the spec: \<^verbatim>\<open>RemotePage.repoConflict()\<close>, a method of
  \<^verbatim>\<open>lib/models\<close>, which is not among the source files. The spec: "a RemotePage's
  \<^verbatim>\<open>sourceMeta.repo\<close> must equal the syncing repository before any update is applied to
  it", and for the home page "if its \<^verbatim>\<open>sourceMeta.repo\<close> differs from the current
  repository, fail". The syncing repository is the \<^verbatim>\<open>meta.repo\<close> of the associated
  local page.
\<close>

definition repoConflict :: "remote_page \<Rightarrow> local_page option \<Rightarrow> bool" where
  "repoConflict p localPage' =
     (case localPage' of
        None \<Rightarrow> False
      | Some lp \<Rightarrow> repo (rmeta p) \<noteq> repo (meta lp))"

text \<open>\<^verbatim>\<open>homePage.sync(renderer, confluence).then(page => page.id)\<close>: reading \<^verbatim>\<open>id\<close> of
  \<^verbatim>\<open>undefined\<close> is a TypeError.\<close>

definition syncThenId :: "'w confluence \<Rightarrow> page \<Rightarrow> 'w state \<Rightarrow> (error + nat option) \<times> 'w state" where
  "syncThenId confluence homePage st =
     (case syncPage confluence homePage (world st) of
        (Inl err, w) \<Rightarrow> (Inl err, called (SyncFailed homePage err) w st)
      | (Inr NoPage, w) \<Rightarrow> (Inl TypeError, called (SyncPage homePage NoPage) w st)
      | (Inr (PageWithId i), w) \<Rightarrow> (Inr i, called (SyncPage homePage (PageWithId i)) w st))"

definition syncHome ::
  "'w confluence \<Rightarrow> env \<Rightarrow> string \<Rightarrow> string \<Rightarrow> local_page option \<Rightarrow> 'w state
     \<Rightarrow> (error + nat option) \<times> 'w state" where
  "syncHome confluence e repo' siteName' localPage' st =
     (let localPage0 =
            (case localPage' of
               None \<Rightarrow>
                 \<lparr>title = siteName', meta = \<lparr>repo = repo', path = [], sha = []\<rparr>,
                  parentPath = None, parentPageId = None,
                  html = Some (''<h1>'' @ siteName' @ ''</h1>'')\<rparr>
             | Some lp \<Rightarrow> lp)
      in case findParentPage confluence e st of
           (Inl err, st1) \<Rightarrow> (Inl err, st1)
         | (Inr parentId, st1) \<Rightarrow>
             (let localPage1 = localPage0\<lparr>parentPageId := parentId\<rparr>
              in (case findPage confluence siteName' (world st1) of
                    (Inl err, w) \<Rightarrow> (Inl err, called (FindPage siteName') w st1)
                  | (Inr None, w) \<Rightarrow>
                      syncThenId confluence (Local localPage1) (called (FindPage siteName') w st1)
                  | (Inr (Some remotePage), w) \<Rightarrow>
                      (let homePage = Remote remotePage (Some localPage1)
                       in if repoConflict remotePage (Some localPage1)
                          then (Inl (RepoConflict siteName' (repo (rmeta remotePage))),
                                called (FindPage siteName') w st1)
                          else syncThenId confluence homePage
                                 (called (FindPage siteName') w st1)))))"

text \<open>\<^verbatim>\<open>map.get(key) || []\<close>.\<close>

fun orEmpty :: "'a list option \<Rightarrow> 'a list" where
  "orEmpty None = []"
| "orEmpty (Some xs) = xs"

text \<open>
  The grouping loop of \<^verbatim>\<open>syncPages\<close>. \<^verbatim>\<open>page.parentPath || null\<close> sends an empty
  section name to the root key; \<^verbatim>\<open>pagesByParent\<close> and \<^verbatim>\<open>sectionPages\<close> are \<^verbatim>\<open>Map\<close>s.
\<close>

definition parentKeyOf :: "local_page \<Rightarrow> string option" where
  "parentKeyOf p =
     (case parentPath p of
        None \<Rightarrow> None
      | Some s \<Rightarrow> if s = [] then None else Some s)"

type_synonym groups = "(string option \<times> local_page list) list"
type_synonym sections = "(string \<times> local_page) list"

definition groupPage :: "groups \<times> sections \<Rightarrow> local_page \<Rightarrow> groups \<times> sections" where
  "groupPage acc p =
     (let (pagesByParent, sectionPages) = acc;
          parentKey = parentKeyOf p;
          pagesByParent1 =
            (if map_of pagesByParent parentKey = None
             then AList.update parentKey [] pagesByParent else pagesByParent);
          pagesByParent2 =
            AList.update parentKey (orEmpty (map_of pagesByParent1 parentKey) @ [p])
              pagesByParent1
      in (pagesByParent2,
          (case parentKeyOf p of
             None \<Rightarrow> sectionPages
           | Some s \<Rightarrow>
               if map_of sectionPages s = None then AList.update s p sectionPages
               else sectionPages)))"

definition groupPages :: "local_page list \<Rightarrow> groups \<times> sections" where
  "groupPages localPages = foldl groupPage ([], []) localPages"

text \<open>\<^verbatim>\<open>page.title\<close> of a \<^verbatim>\<open>union\<close> element.\<close>

fun pageTitle :: "page \<Rightarrow> string" where
  "pageTitle (Local p) = title p"
| "pageTitle (Remote p lp) = rtitle p"

text \<open>
  The pairing loop of \<^verbatim>\<open>processLevel\<close>: each local page gets \<^verbatim>\<open>parentPageId\<close>, and is
  replaced by the remote page found under its path, which is then removed from
  \<^verbatim>\<open>remotePages\<close>. The result is the first part of \<^verbatim>\<open>union\<close> and what is left of
  \<^verbatim>\<open>remotePages\<close>.
\<close>

fun pairPages ::
  "nat option \<Rightarrow> local_page list \<Rightarrow> (string \<times> remote_page) list
     \<Rightarrow> page list \<times> (string \<times> remote_page) list" where
  "pairPages parentPageId' [] remotePages = ([], remotePages)"
| "pairPages parentPageId' (p # ps) remotePages =
     (let localPage' = p\<lparr>parentPageId := parentPageId'\<rparr>
      in case map_of remotePages (path (meta localPage')) of
           None \<Rightarrow>
             (let (u, rest) = pairPages parentPageId' ps remotePages
              in (Local localPage' # u, rest))
         | Some remotePage \<Rightarrow>
             (let (u, rest) =
                    pairPages parentPageId' ps (AList.delete (path (meta localPage')) remotePages)
              in (Remote remotePage (Some localPage') # u, rest)))"

definition buildUnion ::
  "nat option \<Rightarrow> local_page list \<Rightarrow> (string \<times> remote_page) list \<Rightarrow> page list" where
  "buildUnion parentPageId' pages' remotePages =
     (let (u, rest) = pairPages parentPageId' pages' remotePages
      in u @ map (\<lambda>kv. Remote (snd kv) None) rest)"

text \<open>\<^verbatim>\<open>page.title && syncedPage && syncedPage.id\<close>: the id to record, if any
  (\<^verbatim>\<open>0\<close> and the empty string are falsy).\<close>

definition recordedId :: "page \<Rightarrow> sync_result \<Rightarrow> nat option" where
  "recordedId p r =
     (if pageTitle p = [] then None
      else (case r of
              NoPage \<Rightarrow> None
            | PageWithId None \<Rightarrow> None
            | PageWithId (Some i) \<Rightarrow> if i = 0 then None else Some i))"

definition recordSynced :: "page \<Rightarrow> sync_result \<Rightarrow> (string option \<Rightarrow> nat option) \<Rightarrow> (string option \<Rightarrow> nat option)" where
  "recordSynced p r idx =
     (case recordedId p r of
        None \<Rightarrow> idx
      | Some i \<Rightarrow> idx(Some (pageTitle p) := Some i))"

text \<open>The loop \<^verbatim>\<open>for (let page of union) { await page.sync(...); ... }\<close>.\<close>

fun syncUnion :: "'w confluence \<Rightarrow> page list \<Rightarrow> 'w state \<Rightarrow> outcome \<times> 'w state" where
  "syncUnion confluence [] st = (Done, st)"
| "syncUnion confluence (p # ps) st =
     (case syncPage confluence p (world st) of
        (Inl err, w) \<Rightarrow> (Failed err, called (SyncFailed p err) w st)
      | (Inr syncedPage, w) \<Rightarrow>
          syncUnion confluence ps
            ((called (SyncPage p syncedPage) w st)
               \<lparr>syncedPages := recordSynced p syncedPage (syncedPages st)\<rparr>))"

text \<open>
  \<^verbatim>\<open>processLevel\<close> calls itself through the loop over \<^verbatim>\<open>pages\<close>, and nothing bounds
  the depth (a page whose title is its own section name recurses for ever), so the
  model carries fuel: one unit per nested level, \<open>OutOfFuel\<close> when it is used up.
  \<open>processChildren\<close> is the final loop of \<^verbatim>\<open>processLevel\<close>.
\<close>

fun processLevel ::
    "'w confluence \<Rightarrow> groups \<Rightarrow> sections \<Rightarrow> nat \<Rightarrow> string option \<Rightarrow> 'w state \<Rightarrow> outcome \<times> 'w state"
  and processChildren ::
    "'w confluence \<Rightarrow> groups \<Rightarrow> sections \<Rightarrow> nat \<Rightarrow> local_page list \<Rightarrow> 'w state \<Rightarrow> outcome \<times> 'w state"
where
  "processLevel confluence pagesByParent sectionPages 0 parentKey st = (OutOfFuel, st)"
| "processLevel confluence pagesByParent sectionPages (Suc fuel) parentKey st =
     (let pages' = orEmpty (map_of pagesByParent parentKey);
          parentPageId' = syncedPages st parentKey
      in case getChildPages confluence parentPageId' (world st) of
           (Inl err, w) \<Rightarrow> (Failed err, called (LevelFetch parentKey parentPageId') w st)
         | (Inr remotePages, w) \<Rightarrow>
             (case syncUnion confluence (buildUnion parentPageId' pages' remotePages)
                     (called (LevelFetch parentKey parentPageId') w st) of
                (Done, st') \<Rightarrow> processChildren confluence pagesByParent sectionPages fuel pages' st'
              | (out, st') \<Rightarrow> (out, st')))"
| "processChildren confluence pagesByParent sectionPages fuel [] st = (Done, st)"
| "processChildren confluence pagesByParent sectionPages fuel (p # ps) st =
     (if map_of sectionPages (title p) \<noteq> None
      then (case processLevel confluence pagesByParent sectionPages fuel (Some (title p)) st of
              (Done, st') \<Rightarrow> processChildren confluence pagesByParent sectionPages fuel ps st'
            | (out, st') \<Rightarrow> (out, st'))
      else processChildren confluence pagesByParent sectionPages fuel ps st)"

definition syncPages ::
  "'w confluence \<Rightarrow> nat \<Rightarrow> nat option \<Rightarrow> local_page list \<Rightarrow> 'w state \<Rightarrow> outcome \<times> 'w state" where
  "syncPages confluence fuel home localPages st =
     (let (pagesByParent, sectionPages) = groupPages localPages
      in processLevel confluence pagesByParent sectionPages fuel None
           (st\<lparr>syncedPages := (\<lambda>k. None)(None := home)\<rparr>))"

text \<open>\<^verbatim>\<open>sync\<close>: every error ends in \<^verbatim>\<open>errorHandler\<close>, which fails the action.\<close>

definition sync :: "'w confluence \<Rightarrow> env \<Rightarrow> mkdocs \<Rightarrow> nat \<Rightarrow> 'w state \<Rightarrow> outcome \<times> 'w state" where
  "sync confluence e json fuel st =
     (case getContext e ''.'' json of
        Inl err \<Rightarrow> (Failed err, st)
      | Inr (ctx, l) \<Rightarrow>
          (case syncHome confluence e (ctx_repo ctx) (siteName ctx) (readMe ctx) st of
             (Inl err, st1) \<Rightarrow> (Failed err, st1)
           | (Inr home, st1) \<Rightarrow> syncPages confluence fuel home (ctx_pages ctx) st1))"

fun unpublish :: "'w confluence \<Rightarrow> remote_page list \<Rightarrow> 'w state \<Rightarrow> (error + unit) \<times> 'w state" where
  "unpublish confluence [] st = (Inr (), st)"
| "unpublish confluence (p # remotePages) st =
     (case deletePage confluence (rid p) (world st) of
        (Inl err, w) \<Rightarrow> (Inl err, called (DeletePage (rid p)) w st)
      | (Inr u, w) \<Rightarrow> unpublish confluence remotePages (called (DeletePage (rid p)) w st))"

text \<open>
  \<^verbatim>\<open>cleanup\<close>: \<^verbatim>\<open>getContext\<close> is called outside the \<^verbatim>\<open>try\<close>, so its error rejects the
  promise (\<open>Rejected\<close>); an error inside goes to \<^verbatim>\<open>errorHandler\<close> (\<open>CleanupFailed\<close>).
\<close>

datatype cleanup_outcome = Rejected error | NothingToClean | Cleaned | CleanupFailed error

definition cleanup :: "'w confluence \<Rightarrow> env \<Rightarrow> mkdocs \<Rightarrow> 'w state \<Rightarrow> cleanup_outcome \<times> 'w state" where
  "cleanup confluence e json st =
     (case getContext e ''.'' json of
        Inl err \<Rightarrow> (Rejected err, st)
      | Inr (ctx, l) \<Rightarrow>
          (case findPage confluence (siteName ctx) (world st) of
             (Inl err, w) \<Rightarrow> (CleanupFailed err, called (FindPage (siteName ctx)) w st)
           | (Inr None, w) \<Rightarrow> (NothingToClean, called (FindPage (siteName ctx)) w st)
           | (Inr (Some home), w) \<Rightarrow>
               (case getChildPages confluence (Some (rid home)) w of
                  (Inl err, w') \<Rightarrow>
                    (CleanupFailed err,
                     called (GetChildPages (Some (rid home))) w'
                       (called (FindPage (siteName ctx)) w st))
                | (Inr remotePages, w') \<Rightarrow>
                    (case unpublish confluence (map snd remotePages)
                            (called (GetChildPages (Some (rid home))) w'
                               (called (FindPage (siteName ctx)) w st)) of
                       (Inl err, st1) \<Rightarrow> (CleanupFailed err, st1)
                     | (Inr u, st1) \<Rightarrow>
                         (case unpublish confluence [home] st1 of
                            (Inl err, st2) \<Rightarrow> (CleanupFailed err, st2)
                          | (Inr u', st2) \<Rightarrow> (Cleaned, st2))))))"

section \<open>Instances used in the examples\<close>

text \<open>
  Node's \<^verbatim>\<open>path.resolve\<close> and \<^verbatim>\<open>path.relative\<close> on POSIX, to instantiate the
  parameters of \<open>env\<close>. \<^verbatim>\<open>resolve\<close> starts from the working directory, restarts at an
  absolute segment, drops empty and \<^verbatim>\<open>.\<close> components and lets \<^verbatim>\<open>..\<close> remove the
  component before it. \<^verbatim>\<open>relative\<close> resolves both paths, climbs from what is left of
  \<open>from\<close> after the common components and descends into what is left of \<open>to\<close>.
\<close>

fun normalizeParts :: "string list \<Rightarrow> string list \<Rightarrow> string list" where
  "normalizeParts stack [] = stack"
| "normalizeParts stack (c # cs) =
     (if c = [] \<or> c = ''.'' then normalizeParts stack cs
      else if c = ''..'' then normalizeParts (butlast stack) cs
      else normalizeParts (stack @ [c]) cs)"

fun resolveParts :: "string list \<Rightarrow> string list \<Rightarrow> string list" where
  "resolveParts stack [] = stack"
| "resolveParts stack (seg # segs) =
     resolveParts
       (normalizeParts (if seg \<noteq> [] \<and> hd seg = CHR ''/'' then [] else stack) (split_sep seg))
       segs"

definition posix_resolve :: "string \<Rightarrow> string list \<Rightarrow> string" where
  "posix_resolve cwd' segs = CHR ''/'' # join_sep (resolveParts [] (cwd' # segs))"

fun dropCommon :: "string list \<Rightarrow> string list \<Rightarrow> string list \<times> string list" where
  "dropCommon (a # as) (b # bs) = (if a = b then dropCommon as bs else (a # as, b # bs))"
| "dropCommon as bs = (as, bs)"

definition posix_relative :: "string \<Rightarrow> string \<Rightarrow> string \<Rightarrow> string" where
  "posix_relative cwd' from to =
     (let (restFrom, restTo) =
            dropCommon (resolveParts [] [cwd', from]) (resolveParts [] [cwd', to])
      in join_sep (map (\<lambda>c. ''..'') restFrom @ restTo))"

text \<open>
  \<^verbatim>\<open>String.prototype.trim\<close> on strings given by their UTF-8 encoding. It removes, at
  both ends, every character that is \<^verbatim>\<open>WhiteSpace\<close> or \<^verbatim>\<open>LineTerminator\<close> of
  ECMAScript: U+0009 to U+000D, U+0020, U+00A0, U+1680, U+2000 to U+200A, U+2028,
  U+2029, U+202F, U+205F, U+3000 and U+FEFF. \<open>whiteSpace\<close> lists their encodings. No
  encoding is a prefix or a suffix of another, and in well-formed UTF-8 a lead byte
  starts a character and an ASCII byte is one, so removing an encoding at either end
  removes exactly that character.
\<close>

definition whiteSpace :: "string list" where
  "whiteSpace =
     [[CHR 0x09], [CHR 0x0A], [CHR 0x0B], [CHR 0x0C], [CHR 0x0D], [CHR 0x20],
      [CHR 0xC2, CHR 0xA0],
      [CHR 0xE1, CHR 0x9A, CHR 0x80],
      [CHR 0xE2, CHR 0x80, CHR 0x80], [CHR 0xE2, CHR 0x80, CHR 0x81],
      [CHR 0xE2, CHR 0x80, CHR 0x82], [CHR 0xE2, CHR 0x80, CHR 0x83],
      [CHR 0xE2, CHR 0x80, CHR 0x84], [CHR 0xE2, CHR 0x80, CHR 0x85],
      [CHR 0xE2, CHR 0x80, CHR 0x86], [CHR 0xE2, CHR 0x80, CHR 0x87],
      [CHR 0xE2, CHR 0x80, CHR 0x88], [CHR 0xE2, CHR 0x80, CHR 0x89],
      [CHR 0xE2, CHR 0x80, CHR 0x8A],
      [CHR 0xE2, CHR 0x80, CHR 0xA8], [CHR 0xE2, CHR 0x80, CHR 0xA9],
      [CHR 0xE2, CHR 0x80, CHR 0xAF],
      [CHR 0xE2, CHR 0x81, CHR 0x9F],
      [CHR 0xE3, CHR 0x80, CHR 0x80],
      [CHR 0xEF, CHR 0xBB, CHR 0xBF]]"

text \<open>Removes from the front of \<open>s\<close>, as long as there is one, a leading occurrence of
  one of the non-empty strings \<open>ws\<close>.\<close>

function stripLeading :: "string list \<Rightarrow> string \<Rightarrow> string" where
  "stripLeading ws s =
     (case find (\<lambda>w. w \<noteq> [] \<and> prefix w s) ws of
        None \<Rightarrow> s
      | Some w \<Rightarrow> stripLeading ws (drop (length w) s))"
  by pat_completeness auto

termination
proof (relation "measure (\<lambda>(ws, s). length s)")
  show "wf (measure (\<lambda>(ws, s). length s))"
    by simp
next
  fix ws :: "string list" and s w :: string
  assume "find (\<lambda>w. w \<noteq> [] \<and> prefix w s) ws = Some w"
  then have "w \<noteq> []" and "prefix w s"
    by (auto simp: find_Some_iff)
  then have "0 < length w" and "length w \<le> length s"
    by (auto simp: prefix_length_le)
  then show "((ws, drop (length w) s), (ws, s)) \<in> measure (\<lambda>(ws, s). length s)"
    by (cases w) simp_all
qed

definition trimUtf8 :: "string \<Rightarrow> string" where
  "trimUtf8 s = rev (stripLeading (map rev whiteSpace) (rev (stripLeading whiteSpace s)))"

text \<open>A working directory \<^verbatim>\<open>/repo\<close> holding the given files, with the given title
  prefix and no configured parent page.\<close>

definition repoEnv :: "string list \<Rightarrow> string \<Rightarrow> env" where
  "repoEnv files tp =
     \<lparr>cwd = ''/repo'', existsSync = (\<lambda>p. p \<in> set files), fileHash = (\<lambda>p. ''#'' @ p),
      titlePrefix = tp, parentPage = None,
      resolve = posix_resolve ''/repo'', relative = posix_relative ''/repo'',
      trim = trimUtf8\<rparr>"

text \<open>
  Modelled from the spec: the remote store and the per-page sync operation
  (\<^verbatim>\<open>lib/confluence-sdk.js\<close> and \<^verbatim>\<open>lib/models\<close> are not among the source files).
  The spec: \<^verbatim>\<open>findPageByTitle\<close> returns the page or none; \<^verbatim>\<open>getChildPages\<close> returns
  the direct children keyed by source path, empty for a parent without children; a page
  with no counterpart is created under its parent id and gets a fresh id; a page with a
  counterpart is updated (content and parent, id unchanged) unless the repositories
  differ, which fails; a remote page with no local page is deleted.
\<close>

record store =
  remote :: "remote_page list"
  nextId :: nat

definition memFindPage :: "string \<Rightarrow> store \<Rightarrow> (error + remote_page option) \<times> store" where
  "memFindPage t s = (Inr (find (\<lambda>p. rtitle p = t) (remote s)), s)"

definition memGetChildPages ::
  "nat option \<Rightarrow> store \<Rightarrow> (error + (string \<times> remote_page) list) \<times> store" where
  "memGetChildPages pid s =
     (Inr (foldl (\<lambda>m p. AList.update (path (rmeta p)) p m) []
             (filter (\<lambda>p. rparent p = pid) (remote s))), s)"

definition memDeletePage :: "nat \<Rightarrow> store \<Rightarrow> (error + unit) \<times> store" where
  "memDeletePage i s = (Inr (), s\<lparr>remote := filter (\<lambda>p. rid p \<noteq> i) (remote s)\<rparr>)"

fun memSyncPage :: "page \<Rightarrow> store \<Rightarrow> (error + sync_result) \<times> store" where
  "memSyncPage (Local lp) s =
     (Inr (PageWithId (Some (nextId s))),
      s\<lparr>remote := remote s @
             [\<lparr>rid = nextId s, rtitle = title lp, rmeta = meta lp,
               rparent = parentPageId lp\<rparr>],
        nextId := Suc (nextId s)\<rparr>)"
| "memSyncPage (Remote p localPage') s =
     (case localPage' of
        None \<Rightarrow> (Inr NoPage, s\<lparr>remote := filter (\<lambda>q. rid q \<noteq> rid p) (remote s)\<rparr>)
      | Some lp \<Rightarrow>
          if repo (rmeta p) \<noteq> repo (meta lp) then (Inl (RemoteError ''conflict''), s)
          else
            (Inr (PageWithId (Some (rid p))),
             s\<lparr>remote :=
                  map (\<lambda>q. if rid q = rid p
                            then q\<lparr>rmeta := meta lp, rparent := parentPageId lp\<rparr> else q)
                    (remote s)\<rparr>))"

definition memStore :: "store confluence" where
  "memStore =
     \<lparr>findPage = memFindPage, getChildPages = memGetChildPages,
      deletePage = memDeletePage, syncPage = memSyncPage\<rparr>"

text \<open>A run that starts on the given store with no call made yet.\<close>

definition startOn :: "'w \<Rightarrow> 'w state" where
  "startOn w = \<lparr>world = w, syncedPages = (\<lambda>k. None), trace = []\<rparr>"

definition emptyStore :: store where
  "emptyStore = \<lparr>remote = [], nextId = 1\<rparr>"

section \<open>Observations on traces\<close>

text \<open>Calls that change the remote store: a sync (create, update or delete) and a
  delete.\<close>

fun isMutation :: "event \<Rightarrow> bool" where
  "isMutation (SyncPage p r) = True"
| "isMutation (SyncFailed p err) = True"
| "isMutation (DeletePage i) = True"
| "isMutation ev = False"

text \<open>A \<^verbatim>\<open>processLevel\<close> starting, a sync that resolved, and the page an event syncs.\<close>

fun isLevelFetch :: "event \<Rightarrow> bool" where
  "isLevelFetch (LevelFetch k pid) = True"
| "isLevelFetch ev = False"

fun isResolved :: "event \<Rightarrow> bool" where
  "isResolved (SyncPage p r) = True"
| "isResolved ev = False"

fun isSyncOf :: "page \<Rightarrow> event \<Rightarrow> bool" where
  "isSyncOf p (SyncPage q r) = (q = p)"
| "isSyncOf p (SyncFailed q err) = (q = p)"
| "isSyncOf p ev = False"

text \<open>The local page a \<^verbatim>\<open>union\<close> element carries (itself, or the \<^verbatim>\<open>localPage\<close> of a
  matched remote page), and the local page an event syncs.\<close>

fun localOf :: "page \<Rightarrow> local_page option" where
  "localOf (Local lp) = Some lp"
| "localOf (Remote p lp) = lp"

fun syncedLocal :: "event \<Rightarrow> local_page option" where
  "syncedLocal (SyncPage p r) = localOf p"
| "syncedLocal (SyncFailed p err) = localOf p"
| "syncedLocal ev = None"

text \<open>
  The \<^verbatim>\<open>syncedPages\<close> map as a sequence of events builds it from \<open>idx\<close>, with the
  code's own update at every resolved sync (used in the proofs).
\<close>

fun recordEvent :: "event \<Rightarrow> (string option \<Rightarrow> nat option) \<Rightarrow> (string option \<Rightarrow> nat option)" where
  "recordEvent (SyncPage p r) idx = recordSynced p r idx"
| "recordEvent ev idx = idx"

definition replay :: "(string option \<Rightarrow> nat option) \<Rightarrow> event list \<Rightarrow> (string option \<Rightarrow> nat option)" where
  "replay idx evs = foldl (\<lambda>i ev. recordEvent ev i) idx evs"

text \<open>The key and the parent id of the latest \<^verbatim>\<open>processLevel\<close> started in a sequence of
  events.\<close>

fun fetchAfter :: "(string option \<times> nat option) option \<Rightarrow> event list \<Rightarrow> (string option \<times> nat option) option" where
  "fetchAfter cur [] = cur"
| "fetchAfter cur (LevelFetch k pid # evs) = fetchAfter (Some (k, pid)) evs"
| "fetchAfter cur (ev # evs) = fetchAfter cur evs"

definition lastFetch :: "event list \<Rightarrow> (string option \<times> nat option) option" where
  "lastFetch evs = fetchAfter None evs"

text \<open>
  What the pairing loop makes of a local page \<open>p\<close> at a level whose parent id is
  \<open>pid\<close>: the page itself (to be created) or the remote page found under its path (to
  be updated), carrying \<open>p\<close> with \<^verbatim>\<open>parentPageId\<close> set. \<open>unmatched\<close> are the remote
  pages under whose path no local page of the level is found: the deletion candidates.
\<close>

definition pairedWith :: "nat option \<Rightarrow> (string \<times> remote_page) list \<Rightarrow> local_page \<Rightarrow> page \<Rightarrow> bool" where
  "pairedWith pid remotePages p u \<longleftrightarrow>
     u = Local (p\<lparr>parentPageId := pid\<rparr>) \<or>
     (\<exists>r. u = Remote r (Some (p\<lparr>parentPageId := pid\<rparr>)) \<and> (path (meta p), r) \<in> set remotePages)"

definition unmatched :: "local_page list \<Rightarrow> (string \<times> remote_page) list \<Rightarrow> (string \<times> remote_page) list" where
  "unmatched ps remotePages = filter (\<lambda>kv. fst kv \<notin> set (map (\<lambda>p. path (meta p)) ps)) remotePages"








text \<open>
  Auxiliary notions for the proofs. A page is in the level \<open>cur\<close> when the local page
  it carries has the level's key as parent key and the level's parent id as
  \<^verbatim>\<open>parentPageId\<close>. \<open>levelsOk idx cur evs\<close> replays \<open>evs\<close> from the index \<open>idx\<close> and
  the current level \<open>cur\<close>, checking that every level starts with the parent id the
  index holds for its key, and that every sync is of a page in the current level.
  \<open>ran st st' evs\<close>: from \<open>st\<close> to \<open>st'\<close> the calls \<open>evs\<close> were made, and the index
  changed as they say. \<open>groupsOk\<close>: every group holds pages of its own key.
  \<open>keysOk g k\<close>: an event that starts a level starts the level \<open>k\<close> or the level
  named by the title of a page of \<open>g\<close>.
\<close>

definition inLevel :: "(string option \<times> nat option) option \<Rightarrow> page \<Rightarrow> bool" where
  "inLevel cur p =
     (case localOf p of
        None \<Rightarrow> True
      | Some lp \<Rightarrow> cur = Some (parentKeyOf lp, parentPageId lp))"

fun levelsOk :: "(string option \<Rightarrow> nat option) \<Rightarrow> (string option \<times> nat option) option \<Rightarrow> event list \<Rightarrow> bool" where
  "levelsOk idx cur [] = True"
| "levelsOk idx cur (LevelFetch k pid # evs) = (pid = idx k \<and> levelsOk idx (Some (k, pid)) evs)"
| "levelsOk idx cur (SyncPage p r # evs) = (inLevel cur p \<and> levelsOk (recordSynced p r idx) cur evs)"
| "levelsOk idx cur (SyncFailed p err # evs) = (inLevel cur p \<and> levelsOk idx cur evs)"
| "levelsOk idx cur (ev # evs) = levelsOk idx cur evs"

definition ran :: "'w state \<Rightarrow> 'w state \<Rightarrow> event list \<Rightarrow> bool" where
  "ran st st' evs \<longleftrightarrow>
     trace st' = trace st @ evs \<and> syncedPages st' = replay (syncedPages st) evs"

definition groupsOk :: "groups \<Rightarrow> bool" where
  "groupsOk g \<longleftrightarrow> (\<forall>k. \<forall>p\<in>set (orEmpty (map_of g k)). parentKeyOf p = k)"

definition keysOk :: "groups \<Rightarrow> string option \<Rightarrow> event \<Rightarrow> bool" where
  "keysOk g k ev =
     (case ev of
        LevelFetch k' pid \<Rightarrow> k' = k \<or> (\<exists>j. \<exists>p\<in>set (orEmpty (map_of g j)). k' = Some (title p))
      | _ \<Rightarrow> True)"


text \<open>
  The sections of a navigation description in the order the depth-first traversal meets
  them, each with the section that encloses it (a section name may occur more than
  once).
\<close>

fun sectionVisits :: "string option \<Rightarrow> nav_item list \<Rightarrow> (string \<times> string option) list"
  and itemVisits :: "string option \<Rightarrow> nav_item \<Rightarrow> (string \<times> string option) list" where
  "sectionVisits parent [] = []"
| "sectionVisits parent (item # items) = itemVisits parent item @ sectionVisits parent items"
| "itemVisits parent (Bare s) = []"
| "itemVisits parent (Leaf t p) = []"
| "itemVisits parent (Section t sub) = (t, parent) # sectionVisits (Some t) sub"

text \<open>A sequence of \<^verbatim>\<open>Map.set\<close> calls.\<close>

definition setAll :: "hierarchy \<Rightarrow> (string \<times> string option) list \<Rightarrow> hierarchy" where
  "setAll h vs = foldl (\<lambda>m kv. AList.update (fst kv) (snd kv) m) h vs"

text \<open>The page \<^verbatim>\<open>createSectionPages\<close> makes of the index file \<open>readmePath\<close> for the
  section \<open>name\<close> whose parent is \<open>parent\<close>.\<close>

definition readmePage :: "env \<Rightarrow> string \<Rightarrow> string \<Rightarrow> string \<Rightarrow> string option \<Rightarrow> local_page" where
  "readmePage e r readmePath name parent =
     \<lparr>title = trim e (titlePrefix e @ '' '' @ name),
      meta = \<lparr>repo = r, path = relative e (cwd e) readmePath, sha = fileHash e readmePath\<rparr>,
      parentPath = parent, parentPageId = None, html = None\<rparr>"

section \<open>Examples\<close>

text \<open>A navigation entry that climbs out of the working directory, to a file that
  exists.\<close>

definition envOutside :: env where
  "envOutside = repoEnv [''/other/secret.md''] []"

definition emptyTree :: tstate where
  "emptyTree = \<lparr>pages = [], sectionHierarchy = [], io_log = []\<rparr>"

text \<open>A site with one section and one page in it; the page's file exists, and so does
  a \<^verbatim>\<open>README.md\<close> beside it.\<close>

definition guidesNav :: "nav_item list" where
  "guidesNav = [Section ''Guides'' [Leaf ''Intro'' ''guides/intro.md'']]"

definition guidesYml :: mkdocs where
  "guidesYml = \<lparr>nav = Some guidesNav, repo_url = Some ''git/docs'', site_name = ''Site''\<rparr>"

definition guidesEnv :: env where
  "guidesEnv = repoEnv [''/repo/docs/guides/intro.md'', ''/repo/docs/guides/README.md''] []"

text \<open>What \<^verbatim>\<open>getContext\<close> returns for that site: the section has an entry in the
  hierarchy, and no page of its own.\<close>

definition guidesIntro :: local_page where
  "guidesIntro =
     \<lparr>title = ''Intro'',
      meta = \<lparr>repo = ''git/docs'', path = ''docs/guides/intro.md'',
               sha = ''#/repo/docs/guides/intro.md''\<rparr>,
      parentPath = Some ''Guides'', parentPageId = None, html = None\<rparr>"

definition guidesCtx :: site_context where
  "guidesCtx =
     \<lparr>siteName = ''Site'', ctx_repo = ''git/docs'', ctx_pages = [guidesIntro],
      pageRefs = [(''docs/guides/intro.md'', ''Intro'')],
      ctx_sectionHierarchy = [(''Guides'', None)], readMe = None\<rparr>"

definition guidesLog :: "io_event list" where
  "guidesLog =
     [ExistsSync ''/repo/docs/guides/intro.md'', FileHash ''/repo/docs/guides/intro.md'',
      ExistsSync ''/repo/README.md'', WarnNotFound ''Site'' ''README.md'']"

text \<open>A remote space where a page titled \<^verbatim>\<open>Site\<close> was published from another
  repository.\<close>

definition foreignHome :: remote_page where
  "foreignHome = \<lparr>rid = 7, rtitle = ''Site'',
                   rmeta = \<lparr>repo = ''git/other'', path = [], sha = []\<rparr>, rparent = None\<rparr>"

definition foreignStore :: store where
  "foreignStore = \<lparr>remote = [foreignHome], nextId = 8\<rparr>"

text \<open>The site of \<open>guidesNav\<close> without the \<^verbatim>\<open>README.md\<close>, and what \<^verbatim>\<open>traverse\<close>
  returns for it.\<close>

definition bareEnv :: env where
  "bareEnv = repoEnv [''/repo/docs/guides/intro.md''] []"

definition guidesTree :: tstate where
  "guidesTree =
     \<lparr>pages = [guidesIntro], sectionHierarchy = [(''Guides'', None)],
      io_log = [ExistsSync ''/repo/docs/guides/intro.md'', FileHash ''/repo/docs/guides/intro.md'']\<rparr>"

text \<open>The home page \<^verbatim>\<open>syncHome\<close> makes up for a site named \<^verbatim>\<open>Site\<close> that has no
  top-level \<^verbatim>\<open>README.md\<close>.\<close>

definition siteHome :: local_page where
  "siteHome =
     \<lparr>title = ''Site'', meta = \<lparr>repo = ''git/docs'', path = [], sha = []\<rparr>,
      parentPath = None, parentPageId = None, html = Some ''<h1>Site</h1>''\<rparr>"

text \<open>The same site kept under \<^verbatim>\<open>/repo/site\<close> (so that the paths of its pages, which
  are relative to the working directory, contain \<^verbatim>\<open>/docs/\<close>), with a title prefix.\<close>

definition siteEnv :: env where
  "siteEnv =
     repoEnv [''/repo/site/docs/guides/intro.md'', ''/repo/site/docs/guides/README.md''] ''DOCS''"

definition siteTree :: tstate where
  "siteTree =
     \<lparr>pages =
        [\<lparr>title = ''DOCS Intro'',
          meta = \<lparr>repo = ''git/docs'', path = ''site/docs/guides/intro.md'',
                   sha = ''#/repo/site/docs/guides/intro.md''\<rparr>,
          parentPath = Some ''Guides'', parentPageId = None, html = None\<rparr>],
      sectionHierarchy = [(''Guides'', None)],
      io_log = [ExistsSync ''/repo/site/docs/guides/intro.md'',
                FileHash ''/repo/site/docs/guides/intro.md'']\<rparr>"

text \<open>A navigation description where the section name \<^verbatim>\<open>S\<close> occurs under \<^verbatim>\<open>A\<close> and
  under \<^verbatim>\<open>B\<close>.\<close>

definition dupNav :: "nav_item list" where
  "dupNav = [Section ''A'' [Section ''S'' [Leaf ''P'' ''a/p.md'']],
             Section ''B'' [Section ''S'' [Leaf ''Q'' ''b/q.md'']]]"

text \<open>A page as \<^verbatim>\<open>getPage\<close> and \<^verbatim>\<open>traverse\<close> build it, with the given title, path and
  section.\<close>

definition pageAt :: "string \<Rightarrow> string \<Rightarrow> string option \<Rightarrow> local_page" where
  "pageAt t p parent =
     \<lparr>title = t, meta = \<lparr>repo = ''git/docs'', path = p, sha = ''#'' @ p\<rparr>,
      parentPath = parent, parentPageId = None, html = None\<rparr>"















text \<open>A site, kept under \<^verbatim>\<open>/repo/site\<close>, where a section \<^verbatim>\<open>S\<close> lies directly inside a
  section of the same name; its directory holds a \<^verbatim>\<open>README.md\<close>.\<close>

definition nestedNav :: "nav_item list" where
  "nestedNav = [Section ''S'' [Section ''S'' [Leaf ''P'' ''s/p.md'']]]"

definition nestedYml :: mkdocs where
  "nestedYml = \<lparr>nav = Some nestedNav, repo_url = Some ''git/docs'', site_name = ''Site''\<rparr>"

definition nestedEnv :: env where
  "nestedEnv = repoEnv [''/repo/site/docs/s/p.md'', ''/repo/site/docs/s/README.md''] []"




section \<open>Properties of the tree builder\<close>

lemma getPage_unsafe:
  "\<not> prefix (cwd e) pagePath \<Longrightarrow>
     getPage e r t pagePath tp = (None, [WarnNotFound t (relative e (cwd e) pagePath)])"
  by (simp add: getPage_def)

text \<open>
  Claim C9. A leaf entry whose resolved path does not start with the working directory
  is treated as missing, whatever the file system holds at that path: \<^verbatim>\<open>getPage\<close>
  returns no page, and its only effect is the warning (\<^verbatim>\<open>existsSync\<close> is not called,
  no hash is computed); \<^verbatim>\<open>traverse\<close> leaves the page sequence and the hierarchy as
  they were.
\<close>

theorem leaf_outside_cwd_is_skipped:
  "\<not> prefix (cwd e) (resolve e [basePath, ''docs'', pagePath]) \<Longrightarrow>
   getPage e r t (resolve e [basePath, ''docs'', pagePath]) (titlePrefix e) =
     (None, [WarnNotFound t (relative e (cwd e) (resolve e [basePath, ''docs'', pagePath]))]) \<and>
   traverse_item e r (Leaf t pagePath) basePath parentSection st =
     Inr (st\<lparr>io_log := io_log st @
            [WarnNotFound t (relative e (cwd e) (resolve e [basePath, ''docs'', pagePath]))]\<rparr>)"
  by (simp add: getPage_unsafe)

lemma envOutside_resolve:
  "resolve envOutside [''.'', ''docs'', ''../../other/secret.md''] = ''/other/secret.md''"
  by (simp add: envOutside_def repoEnv_def posix_resolve_def)

lemma envOutside_relative:
  "relative envOutside (cwd envOutside) ''/other/secret.md'' = ''../other/secret.md''"
  by (simp add: envOutside_def repoEnv_def posix_relative_def)

theorem leaf_outside_cwd_is_skipped_witness:
  "existsSync envOutside (resolve envOutside [''.'', ''docs'', ''../../other/secret.md'']) \<and>
   \<not> prefix (cwd envOutside) (resolve envOutside [''.'', ''docs'', ''../../other/secret.md'']) \<and>
   traverse_item envOutside ''git/docs'' (Leaf ''Secret'' ''../../other/secret.md'') ''.'' None
       emptyTree =
     Inr (emptyTree\<lparr>io_log := [WarnNotFound ''Secret'' ''../other/secret.md'']\<rparr>)"
proof -
  have ex: "existsSync envOutside ''/other/secret.md''"
    by (simp add: envOutside_def repoEnv_def)
  have out: "\<not> prefix (cwd envOutside) ''/other/secret.md''"
    by (simp add: envOutside_def repoEnv_def)
  have "\<not> prefix (cwd envOutside) (resolve envOutside [''.'', ''docs'', ''../../other/secret.md''])"
    unfolding envOutside_resolve by (rule out)
  from leaf_outside_cwd_is_skipped [OF this, of "''git/docs''" "''Secret''" None emptyTree]
  show ?thesis
    using ex out by (simp add: envOutside_resolve envOutside_relative emptyTree_def)
qed

subsection \<open>The section hierarchy\<close>

lemma setAll_Nil [simp]: "setAll h [] = h"
  by (simp add: setAll_def)

lemma setAll_Cons [simp]: "setAll h (kv # vs) = setAll (AList.update (fst kv) (snd kv) h) vs"
  by (simp add: setAll_def)

lemma setAll_append: "setAll h (a @ b) = setAll (setAll h a) b"
  by (simp add: setAll_def)

lemma traverse_hierarchy:
  "traverse e r items bp parent st = Inr st' \<Longrightarrow>
     sectionHierarchy st' = setAll (sectionHierarchy st) (sectionVisits parent items)"
  "traverse_item e r item bp parent st = Inr st' \<Longrightarrow>
     sectionHierarchy st' = setAll (sectionHierarchy st) (itemVisits parent item)"
proof (induction e r items bp parent st and e r item bp parent st arbitrary: st' and st'
    rule: traverse_traverse_item.induct)
  case (1 e r bp parent st)
  then show ?case by simp
next
  case (2 e r item items bp parent st)
  from "2.prems" obtain st1 where
    a: "traverse_item e r item bp parent st = Inr st1" and
    b: "traverse e r items bp parent st1 = Inr st'"
    by (auto split: sum.splits)
  show ?case
    using "2.IH"(1) [OF a] "2.IH"(2) [OF a b] by (simp add: setAll_append)
next
  case (3 e r item bp parent st)
  then show ?case by simp
next
  case (4 e r t sub bp parent st)
  then show ?case by simp
next
  case (5 e r t p bp parent st)
  then show ?case by (auto split: prod.splits option.splits)
qed

lemma map_of_setAll: "map_of (setAll h vs) = map_of (rev vs @ h)"
  by (induction vs arbitrary: h)
    (auto simp: update_conv' map_add_def fun_eq_iff split: option.splits)

lemma distinct_setAll: "distinct (map fst h) \<Longrightarrow> distinct (map fst (setAll h vs))"
  by (induction vs arbitrary: h) (auto simp: distinct_update)

lemma keys_setAll: "fst ` set (setAll h vs) = fst ` set h \<union> fst ` set vs"
  by (induction vs arbitrary: h) (auto simp: dom_update)

lemma update_fresh: "k \<notin> fst ` set h \<Longrightarrow> AList.update k v h = h @ [(k, v)]"
  by (induction h) auto

lemma setAll_distinct: "distinct (map fst (h @ vs)) \<Longrightarrow> setAll h vs = h @ vs"
proof (induction vs arbitrary: h)
  case Nil
  then show ?case by simp
next
  case (Cons kv vs)
  have "fst kv \<notin> fst ` set h" using Cons.prems by auto
  then have u: "AList.update (fst kv) (snd kv) h = h @ [kv]"
    by (simp add: update_fresh)
  have "distinct (map fst ((h @ [kv]) @ vs))" using Cons.prems by simp
  from Cons.IH [OF this] show ?case using u by simp
qed

text \<open>
  Claim C6, as amended. After a traversal that does not fail, every section name the
  traversal met has exactly one entry in the hierarchy (the keys are distinct, and they
  are the names met). The entry of a name is bound to the parent of the \<^emph>\<open>last\<close>
  section of that name the traversal met, since \<^verbatim>\<open>Map.set\<close> overwrites: looking a
  name up in the hierarchy is looking it up in the visits, latest first. When no
  section name occurs twice, the hierarchy is the sequence of visits itself.
\<close>

theorem hierarchy_binds_latest_parent:
  assumes "traverse e r items bp None emptyTree = Inr st'"
  shows "distinct (map fst (sectionHierarchy st')) \<and>
         fst ` set (sectionHierarchy st') = fst ` set (sectionVisits None items) \<and>
         map_of (sectionHierarchy st') = map_of (rev (sectionVisits None items)) \<and>
         (distinct (map fst (sectionVisits None items)) \<longrightarrow>
            sectionHierarchy st' = sectionVisits None items)"
proof -
  have h: "sectionHierarchy st' = setAll [] (sectionVisits None items)"
    using traverse_hierarchy(1) [OF assms] by (simp add: emptyTree_def)
  show ?thesis
    unfolding h
    using distinct_setAll [of "[]"] keys_setAll [of "[]"] map_of_setAll [of "[]"]
      setAll_distinct [of "[]"]
    by simp
qed

lemma guides_traverse: "traverse bareEnv ''git/docs'' guidesNav ''.'' None emptyTree = Inr guidesTree"
  by code_simp

theorem hierarchy_binds_latest_parent_witness:
  "traverse bareEnv ''git/docs'' guidesNav ''.'' None emptyTree = Inr guidesTree \<and>
   distinct (map fst (sectionVisits None guidesNav)) \<and>
   sectionHierarchy guidesTree = sectionVisits None guidesNav \<and>
   map_of (sectionHierarchy guidesTree) ''Guides'' = Some None"
proof -
  have d: "distinct (map fst (sectionVisits None guidesNav))"
    by (simp add: guidesNav_def)
  from hierarchy_binds_latest_parent [OF guides_traverse] d
  show ?thesis
    using guides_traverse by (simp add: guidesNav_def)
qed

text \<open>
  The claim as stated fails on \<open>dupNav\<close>: the traversal meets \<^verbatim>\<open>S\<close> first under
  \<^verbatim>\<open>A\<close>, and the hierarchy binds \<^verbatim>\<open>S\<close> to \<^verbatim>\<open>B\<close>.
\<close>

theorem hierarchy_first_binding_counterexample:
  "sectionVisits None dupNav =
     [(''A'', None), (''S'', Some ''A''), (''B'', None), (''S'', Some ''B'')] \<and>
   map_sum id sectionHierarchy (traverse bareEnv ''git/docs'' dupNav ''.'' None emptyTree) =
     Inr [(''A'', None), (''S'', Some ''B''), (''B'', None)]"
proof
  show "sectionVisits None dupNav =
     [(''A'', None), (''S'', Some ''A''), (''B'', None), (''S'', Some ''B'')]"
    by (simp add: dupNav_def)
  show "map_sum id sectionHierarchy (traverse bareEnv ''git/docs'' dupNav ''.'' None emptyTree) =
     Inr [(''A'', None), (''S'', Some ''B''), (''B'', None)]"
    by code_simp
qed

subsection \<open>Section pages\<close>

lemma getPage_found:
  "prefix (cwd e) p \<Longrightarrow> existsSync e p \<Longrightarrow>
     fst (getPage e r t p (titlePrefix e)) = Some (readmePage e r p t None)"
  by (simp add: getPage_def readmePage_def)

lemma createSectionPages_member:
  assumes "(name, parent) \<in> set h"
    and "filter (\<lambda>p. parentPath p = Some name) ps \<noteq> []"
    and "inferSectionDirectory (filter (\<lambda>p. parentPath p = Some name) ps) = Some d"
    and "d \<noteq> []"
    and "prefix (cwd e) (resolve e [bp, ''docs'', d, ''README.md''])"
    and "existsSync e (resolve e [bp, ''docs'', d, ''README.md''])"
  shows "readmePage e r (resolve e [bp, ''docs'', d, ''README.md'']) name parent
           \<in> set (fst (createSectionPages e r bp ps h))"
  using assms(1)
proof (induction h)
  case Nil
  then show ?case by simp
next
  case (Cons entry h)
  obtain n q where entry: "entry = (n, q)" by (cases entry)
  show ?case
  proof (cases "entry = (name, parent)")
    case True
    then show ?thesis
      using assms(2-6) getPage_found [OF assms(5,6), of r name]
      by (auto simp: Let_def readmePage_def split: prod.splits option.splits)
  next
    case False
    then have "(name, parent) \<in> set h" using Cons.prems by simp
    from Cons.IH [OF this] show ?thesis
      unfolding entry
      by (auto simp: Let_def split: prod.splits option.splits)
  qed
qed

lemma getContext_pages:
  assumes "loadConfig e json = Inr (items, r, s)"
    and "traverse e r items bp None emptyTree = Inr st"
  shows "\<exists>ctx l. getContext e bp json = Inr (ctx, l) \<and>
           ctx_pages ctx =
             pages st @ fst (createSectionPages e r bp (pages st) (sectionHierarchy st)) \<and>
           ctx_sectionHierarchy ctx = ownEntries (sectionHierarchy st)"
  using assms by (auto simp: getContext_def emptyTree_def Let_def split: prod.splits)

text \<open>
  Claim C5, as amended. Let a section \<open>name\<close> be bound to \<open>parent\<close> in the hierarchy,
  have at least one child among the traversed pages, and let the directory inferred
  from those children hold a \<^verbatim>\<open>README.md\<close> that exists (below the working
  directory). Then \<^verbatim>\<open>getContext\<close> succeeds, its page sequence is the traversed pages
  followed by the section pages, and among the section pages is the page of that
  \<^verbatim>\<open>README.md\<close>. Its title is the configured title prefix, a space and the section
  name, trimmed. Its \<^verbatim>\<open>parentPath\<close> is \<open>parent\<close>: the section that encloses the last
  section named \<open>name\<close> in the navigation description, which is a section of the
  same name when that section lies directly inside one.
\<close>

theorem section_page_from_readme:
  assumes "loadConfig e json = Inr (items, r, s)"
    and "traverse e r items bp None emptyTree = Inr st"
    and "(name, parent) \<in> set (sectionHierarchy st)"
    and "filter (\<lambda>p. parentPath p = Some name) (pages st) \<noteq> []"
    and "inferSectionDirectory (filter (\<lambda>p. parentPath p = Some name) (pages st)) = Some d"
    and "d \<noteq> []"
    and "prefix (cwd e) (resolve e [bp, ''docs'', d, ''README.md''])"
    and "existsSync e (resolve e [bp, ''docs'', d, ''README.md''])"
  shows "(\<exists>ctx l sectionPages.
            getContext e bp json = Inr (ctx, l) \<and>
            ctx_pages ctx = pages st @ sectionPages \<and>
            readmePage e r (resolve e [bp, ''docs'', d, ''README.md'']) name parent
              \<in> set sectionPages) \<and>
         map_of (rev (sectionVisits None items)) name = Some parent \<and>
         (name, parent) \<in> set (sectionVisits None items)"
proof -
  have h: "sectionHierarchy st = setAll [] (sectionVisits None items)"
    using traverse_hierarchy(1) [OF assms(2)] by (simp add: emptyTree_def)
  have "distinct (map fst (sectionHierarchy st))"
    unfolding h using distinct_setAll [of "[]"] by simp
  then have "map_of (sectionHierarchy st) name = Some parent"
    using assms(3) by (rule map_of_is_SomeI)
  then have m: "map_of (rev (sectionVisits None items)) name = Some parent"
    unfolding h by (simp add: map_of_setAll)
  then have "(name, parent) \<in> set (sectionVisits None items)"
    by (auto dest: map_of_SomeD)
  then show ?thesis
    using m getContext_pages [OF assms(1,2)] createSectionPages_member [OF assms(3-8), of r]
    by auto
qed

lemma site_traverse: "traverse siteEnv ''git/docs'' guidesNav ''site'' None emptyTree = Inr siteTree"
  by code_simp

lemma site_inferred:
  "inferSectionDirectory (filter (\<lambda>p. parentPath p = Some ''Guides'') (pages siteTree)) =
     Some ''guides''"
  by code_simp

lemma site_readme:
  "resolve siteEnv [''site'', ''docs'', ''guides'', ''README.md''] =
     ''/repo/site/docs/guides/README.md''"
  by (simp add: siteEnv_def repoEnv_def posix_resolve_def)

theorem section_page_from_readme_witness:
  "(\<exists>ctx l sectionPages.
      getContext siteEnv ''site'' guidesYml = Inr (ctx, l) \<and>
      ctx_pages ctx = pages siteTree @ sectionPages \<and>
      \<lparr>title = ''DOCS Guides'',
       meta = \<lparr>repo = ''git/docs'', path = ''site/docs/guides/README.md'',
                sha = ''#/repo/site/docs/guides/README.md''\<rparr>,
       parentPath = None, parentPageId = None, html = None\<rparr> \<in> set sectionPages) \<and>
   map_of (rev (sectionVisits None guidesNav)) ''Guides'' = Some None \<and>
   (''Guides'', None) \<in> set (sectionVisits None guidesNav)"
proof -
  have c: "loadConfig siteEnv guidesYml = Inr (guidesNav, ''git/docs'', ''Site'')"
    by code_simp
  have m: "(''Guides'', None) \<in> set (sectionHierarchy siteTree)"
    by (simp add: siteTree_def)
  have n: "filter (\<lambda>p. parentPath p = Some ''Guides'') (pages siteTree) \<noteq> []"
    by (simp add: siteTree_def)
  have d: "''guides'' \<noteq> []"
    by simp
  have p: "prefix (cwd siteEnv) (resolve siteEnv [''site'', ''docs'', ''guides'', ''README.md''])"
    unfolding site_readme by (simp add: siteEnv_def repoEnv_def)
  have x: "existsSync siteEnv (resolve siteEnv [''site'', ''docs'', ''guides'', ''README.md''])"
    unfolding site_readme by (simp add: siteEnv_def repoEnv_def)
  have v: "readmePage siteEnv ''git/docs'' ''/repo/site/docs/guides/README.md'' ''Guides'' None =
     \<lparr>title = ''DOCS Guides'',
      meta = \<lparr>repo = ''git/docs'', path = ''site/docs/guides/README.md'',
               sha = ''#/repo/site/docs/guides/README.md''\<rparr>,
      parentPath = None, parentPageId = None, html = None\<rparr>"
    by code_simp
  from section_page_from_readme [OF c site_traverse m n site_inferred d p x]
  show ?thesis
    unfolding site_readme v .
qed

text \<open>
  The claim as stated fails where a title prefix is configured: the page synthesized
  for the section \<^verbatim>\<open>Guides\<close> is titled \<^verbatim>\<open>DOCS Guides\<close>. It also fails on \<open>nestedNav\<close>,
  where a section \<^verbatim>\<open>S\<close> lies directly inside a section \<^verbatim>\<open>S\<close>: the hierarchy binds
  \<^verbatim>\<open>S\<close> to \<^verbatim>\<open>S\<close>, and the page synthesized for the section has the section itself as
  \<^verbatim>\<open>parentPath\<close>.
\<close>

theorem section_page_title_counterexample:
  "map_sum id (\<lambda>cl. map (\<lambda>p. (title p, parentPath p)) (ctx_pages (fst cl)))
       (getContext siteEnv ''site'' guidesYml) =
     Inr [(''DOCS Intro'', Some ''Guides''), (''DOCS Guides'', None)] \<and>
   map_sum id (\<lambda>cl. (ctx_sectionHierarchy (fst cl),
                     map (\<lambda>p. (title p, path (meta p), parentPath p)) (ctx_pages (fst cl))))
       (getContext nestedEnv ''site'' nestedYml) =
     Inr ([(''S'', Some ''S'')],
          [(''P'', ''site/docs/s/p.md'', Some ''S''),
           (''S'', ''site/docs/s/README.md'', Some ''S'')])"
  by code_simp

subsection \<open>The directory of a section\<close>

text \<open>
  Claim C4 does not hold of the code. The paths of the children are relative to the
  working directory (\<^verbatim>\<open>docs/guides/intro.md\<close>), so they do not contain \<^verbatim>\<open>/docs/\<close>
  and no directory is inferred for two pages of one directory. Where the paths do
  contain \<^verbatim>\<open>/docs/\<close>, the prefixes are compared as strings: for the directories
  \<^verbatim>\<open>guides/ab\<close> and \<^verbatim>\<open>guides/abc\<close> the result is \<^verbatim>\<open>guides/ab\<close>, which is not a
  directory of the second child, and it is \<^verbatim>\<open>guides\<close> when the children come in the
  other order.
\<close>

theorem section_directory_not_inferred:
  "inferSectionDirectory
     [pageAt ''Intro'' ''docs/guides/intro.md'' (Some ''Guides''),
      pageAt ''Setup'' ''docs/guides/setup.md'' (Some ''Guides'')] = None \<and>
   inferSectionDirectory
     [pageAt ''P'' ''site/docs/guides/ab/p.md'' (Some ''Guides''),
      pageAt ''Q'' ''site/docs/guides/abc/q.md'' (Some ''Guides'')] = Some ''guides/ab'' \<and>
   inferSectionDirectory
     [pageAt ''Q'' ''site/docs/guides/abc/q.md'' (Some ''Guides''),
      pageAt ''P'' ''site/docs/guides/ab/p.md'' (Some ''Guides'')] = Some ''guides''"
  by code_simp

text \<open>In a run from the repository root, the page of an existing \<^verbatim>\<open>README.md\<close> is
  not made: the context is the same with and without the file.\<close>

lemma bare_getContext: "getContext bareEnv ''.'' guidesYml = Inr (guidesCtx, guidesLog)"
  by code_simp

lemma guides_getContext: "getContext guidesEnv ''.'' guidesYml = Inr (guidesCtx, guidesLog)"
  by code_simp

section \<open>Properties of the home resolver and of cleanup\<close>

lemma findParentPage_trace:
  "findParentPage c e st = (r, st1) \<Longrightarrow>
     filter isMutation (trace st1) = filter isMutation (trace st)"
  by (auto simp: findParentPage_def called_def
      split: option.splits if_splits prod.splits sum.splits)

lemma getContext_readMe_repo:
  "getContext e bp json = Inr (ctx, l) \<Longrightarrow> readMe ctx = Some lp \<Longrightarrow>
     repo (meta lp) = ctx_repo ctx"
  by (auto simp: getContext_def getPage_def Let_def split: sum.splits prod.splits if_splits)

text \<open>
  Claim C7. When the page found under the site title was published from another
  repository, the run fails with the conflict error of \<^verbatim>\<open>syncHome\<close> (the source
  throws \<^verbatim>\<open>Error\<close> with the message "Page ... already exist for another repo ...")
  right after the lookup, and it has issued no sync and no delete: the calls that
  change the remote store are those made before the run.
\<close>

theorem repo_conflict_fails_without_mutation:
  assumes "getContext e ''.'' json = Inr (ctx, l)"
    and "findParentPage confluence e st = (Inr parentId, st1)"
    and "findPage confluence (siteName ctx) (world st1) = (Inr (Some remotePage), w)"
    and "repo (rmeta remotePage) \<noteq> ctx_repo ctx"
  shows "sync confluence e json fuel st =
           (Failed (RepoConflict (siteName ctx) (repo (rmeta remotePage))),
            called (FindPage (siteName ctx)) w st1)
     \<and> filter isMutation (trace (snd (sync confluence e json fuel st))) =
         filter isMutation (trace st)"
proof -
  have r: "\<And>lp. readMe ctx = Some lp \<Longrightarrow> repo (meta lp) = ctx_repo ctx"
    using assms(1) by (rule getContext_readMe_repo)
  have h: "syncHome confluence e (ctx_repo ctx) (siteName ctx) (readMe ctx) st =
     (Inl (RepoConflict (siteName ctx) (repo (rmeta remotePage))),
      called (FindPage (siteName ctx)) w st1)"
    using assms(2,3,4) r
    by (cases "readMe ctx") (simp_all add: syncHome_def repoConflict_def Let_def)
  have s: "sync confluence e json fuel st =
           (Failed (RepoConflict (siteName ctx) (repo (rmeta remotePage))),
            called (FindPage (siteName ctx)) w st1)"
    using assms(1) h by (simp add: sync_def)
  show ?thesis
    using s findParentPage_trace [OF assms(2)] by (simp add: called_def)
qed

theorem repo_conflict_fails_without_mutation_witness:
  "fst (sync memStore guidesEnv guidesYml 5 (startOn foreignStore)) =
     Failed (RepoConflict ''Site'' ''git/other'') \<and>
   filter isMutation (trace (snd (sync memStore guidesEnv guidesYml 5 (startOn foreignStore)))) = []"
proof -
  have p: "findParentPage memStore guidesEnv (startOn foreignStore) =
             (Inr None, startOn foreignStore)"
    by (simp add: findParentPage_def guidesEnv_def repoEnv_def)
  have f: "findPage memStore (siteName guidesCtx) (world (startOn foreignStore)) =
             (Inr (Some foreignHome), foreignStore)"
    by (simp add: memStore_def memFindPage_def foreignStore_def foreignHome_def guidesCtx_def
        startOn_def)
  have r: "repo (rmeta foreignHome) \<noteq> ctx_repo guidesCtx"
    by (simp add: foreignHome_def guidesCtx_def)
  from repo_conflict_fails_without_mutation [OF guides_getContext p f r, of 5]
  show ?thesis
    by (simp add: foreignHome_def guidesCtx_def startOn_def called_def)
qed

text \<open>
  Claim C8. When \<^verbatim>\<open>findPage\<close> finds no page under the site title, \<^verbatim>\<open>cleanup\<close>
  warns that there is nothing to clean and returns normally (neither a rejection nor
  \<^verbatim>\<open>errorHandler\<close>); the only call it has made is the lookup, so no page is deleted.
\<close>

theorem cleanup_without_home_deletes_nothing:
  assumes "getContext e ''.'' json = Inr (ctx, l)"
    and "findPage confluence (siteName ctx) (world st) = (Inr None, w)"
  shows "cleanup confluence e json st = (NothingToClean, called (FindPage (siteName ctx)) w st)
     \<and> trace (snd (cleanup confluence e json st)) = trace st @ [FindPage (siteName ctx)]
     \<and> filter isMutation (trace (snd (cleanup confluence e json st))) =
         filter isMutation (trace st)"
  using assms by (simp add: cleanup_def called_def)

theorem cleanup_without_home_deletes_nothing_witness:
  "fst (cleanup memStore guidesEnv guidesYml (startOn emptyStore)) = NothingToClean \<and>
   trace (snd (cleanup memStore guidesEnv guidesYml (startOn emptyStore))) = [FindPage ''Site'']"
proof -
  have f: "findPage memStore (siteName guidesCtx) (world (startOn emptyStore)) =
             (Inr None, emptyStore)"
    by (simp add: memStore_def memFindPage_def emptyStore_def startOn_def)
  from cleanup_without_home_deletes_nothing [OF guides_getContext f]
  show ?thesis
    by (simp add: guidesCtx_def startOn_def called_def)
qed

section \<open>Properties of the reconciliation engine\<close>

subsection \<open>Grouping and pairing\<close>

lemma unmatched_Cons:
  "unmatched (p # ps) rps = unmatched ps (filter (\<lambda>kv. fst kv \<noteq> path (meta p)) rps)"
  by (auto simp: unmatched_def intro: filter_cong)

lemma delete_filter: "AList.delete k al = filter (\<lambda>kv. fst kv \<noteq> k) al"
  by (auto simp: AList.delete_eq intro: filter_cong)

lemma pairPages_rest: "snd (pairPages pid ps rps) = unmatched ps rps"
proof (induction ps arbitrary: rps)
  case Nil
  then show ?case by (simp add: unmatched_def)
next
  case (Cons p ps)
  show ?case
  proof (cases "map_of rps (path (meta p))")
    case None
    then have "path (meta p) \<notin> fst ` set rps"
      by (simp add: map_of_eq_None_iff)
    then have "filter (\<lambda>kv. fst kv \<noteq> path (meta p)) rps = rps"
      by (force simp: filter_id_conv)
    then have "unmatched (p # ps) rps = unmatched ps rps"
      by (simp add: unmatched_Cons)
    then show ?thesis
      using None Cons.IH [of rps] by (simp add: split_beta)
  next
    case (Some r)
    have "unmatched (p # ps) rps = unmatched ps (AList.delete (path (meta p)) rps)"
      by (simp add: unmatched_Cons delete_filter)
    then show ?thesis
      using Some Cons.IH [of "AList.delete (path (meta p)) rps"] by (simp add: split_beta)
  qed
qed

lemma pairPages_locals:
  "list_all2 (pairedWith pid rps) ps (fst (pairPages pid ps rps))"
proof (induction ps arbitrary: rps)
  case Nil
  then show ?case by simp
next
  case (Cons p ps)
  show ?case
  proof (cases "map_of rps (path (meta p))")
    case None
    then show ?thesis
      using Cons.IH [of rps] by (simp add: split_beta pairedWith_def)
  next
    case (Some r)
    have sub: "set (AList.delete (path (meta p)) rps) \<subseteq> set rps"
      by (auto simp: delete_filter)
    have "list_all2 (pairedWith pid rps) ps
            (fst (pairPages pid ps (AList.delete (path (meta p)) rps)))"
      using Cons.IH [of "AList.delete (path (meta p)) rps"] sub
      by (auto elim!: list_all2_mono simp: pairedWith_def)
    moreover have "pairedWith pid rps p (Remote r (Some (p\<lparr>parentPageId := pid\<rparr>)))"
      using map_of_SomeD [OF Some] by (simp add: pairedWith_def)
    ultimately show ?thesis
      using Some by (simp add: split_beta)
  qed
qed

lemma buildUnion_eq:
  "buildUnion pid ps rps =
     fst (pairPages pid ps rps) @ map (\<lambda>kv. Remote (snd kv) None) (unmatched ps rps)"
  using pairPages_rest [of pid ps rps] by (simp add: buildUnion_def split_beta)

lemma groupPages_snoc: "groupPages (ps @ [p]) = groupPage (groupPages ps) p"
  by (simp add: groupPages_def)

lemma groupPages_level:
  "orEmpty (map_of (fst (groupPages ps)) k) = filter (\<lambda>p. parentKeyOf p = k) ps"
proof (induction ps arbitrary: k rule: rev_induct)
  case Nil
  then show ?case by (simp add: groupPages_def)
next
  case (snoc p ps)
  show ?case
    using snoc.IH [of k] snoc.IH [of "parentKeyOf p"]
    by (cases "groupPages ps")
      (auto simp: groupPages_snoc groupPage_def Let_def update_conv' split: option.splits)
qed


lemma groupsOk_groupPages: "groupsOk (fst (groupPages ps))"
  by (simp add: groupsOk_def groupPages_level)

lemma parentKeyOf_update [simp]: "parentKeyOf (p\<lparr>parentPageId := pid\<rparr>) = parentKeyOf p"
  by (simp add: parentKeyOf_def)

lemma list_all2_right: "list_all2 P xs ys \<Longrightarrow> y \<in> set ys \<Longrightarrow> \<exists>x\<in>set xs. P x y"
  by (induction rule: list_all2_induct) auto

lemma buildUnion_inLevel:
  assumes "\<forall>p\<in>set ps. parentKeyOf p = k"
  shows "\<forall>u\<in>set (buildUnion pid ps rps). inLevel (Some (k, pid)) u"
proof -
  have "\<forall>u\<in>set (fst (pairPages pid ps rps)). inLevel (Some (k, pid)) u"
  proof
    fix u assume "u \<in> set (fst (pairPages pid ps rps))"
    with pairPages_locals [of pid rps ps] obtain p where "p \<in> set ps" "pairedWith pid rps p u"
      by (blast dest: list_all2_right)
    then show "inLevel (Some (k, pid)) u"
      using assms by (auto simp: pairedWith_def inLevel_def)
  qed
  then show ?thesis
    by (auto simp: buildUnion_eq inLevel_def)
qed

subsection \<open>Replaying a trace\<close>

lemma replay_Nil [simp]: "replay idx [] = idx"
  by (simp add: replay_def)

lemma replay_Cons [simp]: "replay idx (ev # evs) = replay (recordEvent ev idx) evs"
  by (simp add: replay_def)

lemma replay_append: "replay idx (a @ b) = replay (replay idx a) b"
  by (simp add: replay_def)

lemma fetchAfter_append: "fetchAfter cur (a @ b) = fetchAfter (fetchAfter cur a) b"
  by (induction cur a rule: fetchAfter.induct) simp_all

lemma levelsOk_append:
  "levelsOk idx cur (a @ b) \<longleftrightarrow>
     levelsOk idx cur a \<and> levelsOk (replay idx a) (fetchAfter cur a) b"
  by (induction idx cur a rule: levelsOk.induct) simp_all


lemma levelsOk_sync:
  "levelsOk idx cur (pre @ ev # post) \<Longrightarrow> syncedLocal ev = Some lp \<Longrightarrow>
     fetchAfter cur pre = Some (parentKeyOf lp, parentPageId lp)"
  by (cases ev) (auto simp: levelsOk_append inLevel_def)

lemma ran_refl: "ran st st []"
  by (simp add: ran_def)

lemma ran_trans: "ran a b e1 \<Longrightarrow> ran b c e2 \<Longrightarrow> ran a c (e1 @ e2)"
  by (simp add: ran_def replay_append)

subsection \<open>The calls of a level\<close>

lemma syncUnion_ran:
  "syncUnion c u st = (out, st') \<Longrightarrow>
     \<exists>evs. ran st st' evs \<and> list_all2 isSyncOf (take (length evs) u) evs \<and>
           length evs \<le> length u \<and>
           (out = Done \<longrightarrow> length evs = length u \<and> list_all isResolved evs) \<and>
           out \<noteq> OutOfFuel"
proof (induction u arbitrary: st)
  case Nil
  then show ?case by (auto simp: ran_def)
next
  case (Cons p ps)
  show ?case
  proof (cases "syncPage c p (world st)")
    case (Pair res w)
    show ?thesis
    proof (cases res)
      case (Inl err)
      then have "out = Failed err" "st' = called (SyncFailed p err) w st"
        using Cons.prems Pair by auto
      then have "ran st st' [SyncFailed p err]"
        by (simp add: ran_def called_def)
      then show ?thesis
        using \<open>out = Failed err\<close>
        by (intro exI [of _ "[SyncFailed p err]"]) simp
    next
      case (Inr r)
      let ?st1 = "(called (SyncPage p r) w st)\<lparr>syncedPages := recordSynced p r (syncedPages st)\<rparr>"
      have "syncUnion c ps ?st1 = (out, st')"
        using Cons.prems Pair Inr by simp
      from Cons.IH [OF this] obtain evs where
        e: "ran ?st1 st' evs" "list_all2 isSyncOf (take (length evs) ps) evs"
          "length evs \<le> length ps"
          "out = Done \<longrightarrow> length evs = length ps \<and> list_all isResolved evs"
          "out \<noteq> OutOfFuel"
        by blast
      have "ran st ?st1 [SyncPage p r]"
        by (simp add: ran_def called_def)
      from ran_trans [OF this e(1)] have "ran st st' (SyncPage p r # evs)"
        by simp
      then show ?thesis
        using e(2-5) by (intro exI [of _ "SyncPage p r # evs"]) simp
    qed
  qed
qed

lemma syncs_levelsOk:
  "list_all2 isSyncOf us evs \<Longrightarrow> \<forall>u\<in>set us. inLevel cur u \<Longrightarrow>
     levelsOk idx cur evs \<and> fetchAfter cur evs = cur"
proof (induction us evs arbitrary: idx rule: list_all2_induct)
  case Nil
  then show ?case by simp
next
  case (Cons u us ev evs)
  then show ?case by (cases ev) auto
qed

lemma syncs_no_fetch:
  "list_all2 isSyncOf us evs \<Longrightarrow> \<forall>ev\<in>set evs. \<not> isLevelFetch ev"
proof (induction us evs rule: list_all2_induct)
  case Nil
  then show ?case by simp
next
  case (Cons u us ev evs)
  then show ?case by (cases ev) auto
qed

lemma process_ran:
  "processLevel c g s n k st = (out, st') \<Longrightarrow> groupsOk g \<Longrightarrow>
     \<exists>evs. ran st st' evs \<and> (\<forall>cur. levelsOk (syncedPages st) cur evs) \<and>
           (evs = [] \<or> (\<exists>pid. hd evs = LevelFetch k pid))"
  "processChildren c g s n ps st = (out, st') \<Longrightarrow> groupsOk g \<Longrightarrow>
     \<exists>evs. ran st st' evs \<and> (\<forall>cur. levelsOk (syncedPages st) cur evs) \<and>
           (evs = [] \<or> (\<exists>p\<in>set ps. \<exists>pid. hd evs = LevelFetch (Some (title p)) pid))"
proof (induction c g s n k st and c g s n ps st arbitrary: out st' and out st'
    rule: processLevel_processChildren.induct)
  case (1 c g s k st)
  then show ?case by (auto simp: ran_def)
next
  case (2 c g s n k st)
  let ?pid = "syncedPages st k"
  let ?ps = "orEmpty (map_of g k)"
  let ?f = "LevelFetch k ?pid"
  obtain res w where g: "getChildPages c ?pid (world st) = (res, w)"
    by (cases "getChildPages c ?pid (world st)")
  let ?st1 = "called ?f w st"
  have r1: "ran st ?st1 [?f]"
    by (simp add: ran_def called_def)
  show ?case
  proof (cases res)
    case (Inl err)
    then have "st' = ?st1"
      using "2.prems"(1) g by (simp add: Let_def)
    then show ?thesis
      using r1 by (intro exI [of _ "[?f]"]) simp
  next
    case (Inr rps)
    let ?u = "buildUnion ?pid ?ps rps"
    obtain o2 st2 where su: "syncUnion c ?u ?st1 = (o2, st2)"
      by (cases "syncUnion c ?u ?st1")
    from syncUnion_ran [OF su] obtain sevs where
      s: "ran ?st1 st2 sevs" "list_all2 isSyncOf (take (length sevs) ?u) sevs"
      by blast
    have "\<forall>u\<in>set (take (length sevs) ?u). inLevel (Some (k, ?pid)) u"
      using buildUnion_inLevel [of ?ps k ?pid rps] "2.prems"(2)
      by (auto simp: groupsOk_def dest: in_set_takeD)
    from syncs_levelsOk [OF s(2) this] have
      sl: "\<And>idx. levelsOk idx (Some (k, ?pid)) sevs" "fetchAfter (Some (k, ?pid)) sevs = Some (k, ?pid)"
      by auto
    have r2: "ran st st2 (?f # sevs)"
      using ran_trans [OF r1 s(1)] by simp
    have ok2: "\<forall>cur. levelsOk (syncedPages st) cur (?f # sevs)"
      using sl(1) by simp
    show ?thesis
    proof (cases "o2 = Done")
      case False
      then have "st' = st2"
        using "2.prems"(1) g Inr su by (cases o2) (simp_all add: Let_def)
      then show ?thesis
        using r2 ok2 by (intro exI [of _ "?f # sevs"]) simp
    next
      case True
      then have pc: "processChildren c g s n ?ps st2 = (out, st')"
        using "2.prems"(1) g Inr su by (simp add: Let_def)
      from "2.IH" [OF refl refl g [symmetric] Inr su [symmetric] True pc "2.prems"(2)]
      obtain cevs where
        ce: "ran st2 st' cevs" "\<forall>cur. levelsOk (syncedPages st2) cur cevs"
        by blast
      have sp2: "syncedPages st2 = replay (syncedPages st) (?f # sevs)"
        using r2 by (simp add: ran_def)
      have "ran st st' ((?f # sevs) @ cevs)"
        using ran_trans [OF r2 ce(1)] .
      moreover have "\<forall>cur. levelsOk (syncedPages st) cur ((?f # sevs) @ cevs)"
        unfolding levelsOk_append using ok2 ce(2) sp2 by simp
      ultimately show ?thesis
        by (intro exI [of _ "(?f # sevs) @ cevs"]) simp
    qed
  qed
next
  case (3 c g s n st)
  then show ?case by (auto simp: ran_def)
next
  case (4 c g s n p ps st)
  show ?case
  proof (cases "map_of s (title p) \<noteq> None")
    case False
    then have "processChildren c g s n ps st = (out, st')"
      using "4.prems"(1) by simp
    from "4.IH"(3) [OF False this "4.prems"(2)] show ?thesis by auto
  next
    case True
    obtain o1 st1 where pl: "processLevel c g s n (Some (title p)) st = (o1, st1)"
      by (cases "processLevel c g s n (Some (title p)) st")
    from "4.IH"(1) [OF True pl "4.prems"(2)] obtain e1 where
      e1: "ran st st1 e1" "\<forall>cur. levelsOk (syncedPages st) cur e1"
        "e1 = [] \<or> (\<exists>pid. hd e1 = LevelFetch (Some (title p)) pid)"
      by blast
    show ?thesis
    proof (cases "o1 = Done")
      case False
      then have "st' = st1"
        using "4.prems"(1) True pl by (cases o1) simp_all
      then show ?thesis
        using e1 by auto
    next
      case d: True
      then have pc: "processChildren c g s n ps st1 = (out, st')"
        using "4.prems"(1) True pl by simp
      from "4.IH"(2) [OF True pl [symmetric] d pc "4.prems"(2)] obtain e2 where
        e2: "ran st1 st' e2" "\<forall>cur. levelsOk (syncedPages st1) cur e2"
          "e2 = [] \<or> (\<exists>q\<in>set ps. \<exists>pid. hd e2 = LevelFetch (Some (title q)) pid)"
        by blast
      have sp1: "syncedPages st1 = replay (syncedPages st) e1"
        using e1(1) by (simp add: ran_def)
      have "ran st st' (e1 @ e2)"
        using ran_trans [OF e1(1) e2(1)] .
      moreover have "\<forall>cur. levelsOk (syncedPages st) cur (e1 @ e2)"
        unfolding levelsOk_append using e1(2) e2(2) sp1 by simp
      moreover have "e1 @ e2 = [] \<or>
          (\<exists>q\<in>set (p # ps). \<exists>pid. hd (e1 @ e2) = LevelFetch (Some (title q)) pid)"
        using e1(3) e2(3) by (cases e1) auto
      ultimately show ?thesis
        by blast
    qed
  qed
qed

lemma processLevel_step:
  assumes "processLevel c g s (Suc n) k st = (out, st')"
    and "getChildPages c (syncedPages st k) (world st) = (Inr rps, w)"
  shows "\<exists>o2 st2.
      syncUnion c (buildUnion (syncedPages st k) (orEmpty (map_of g k)) rps)
        (called (LevelFetch k (syncedPages st k)) w st) = (o2, st2) \<and>
      (if o2 = Done then processChildren c g s n (orEmpty (map_of g k)) st2 = (out, st')
       else out = o2 \<and> st' = st2)"
  using assms by (auto simp: Let_def split: prod.splits outcome.splits)


















subsection \<open>The parent id of a level\<close>










subsection \<open>The barrier between a level and the levels below\<close>




subsection \<open>The order within a level\<close>



subsection \<open>Sections without a page\<close>

lemma keysOk_sync: "list_all2 isSyncOf us evs \<Longrightarrow> \<forall>ev\<in>set evs. keysOk g k ev"
proof (induction us evs rule: list_all2_induct)
  case Nil
  then show ?case by simp
next
  case (Cons u us ev evs)
  then show ?case by (cases ev) (auto simp: keysOk_def)
qed

lemma keysOk_weaken:
  "keysOk g (Some (title p)) ev \<Longrightarrow> p \<in> set (orEmpty (map_of g j)) \<Longrightarrow> keysOk g k ev"
  by (cases ev) (auto simp: keysOk_def)

lemma process_keys:
  "processLevel c g s n k st = (out, st') \<Longrightarrow> groupsOk g \<Longrightarrow>
     trace st' = trace st @ evs \<Longrightarrow> \<forall>ev\<in>set evs. keysOk g k ev"
  "processChildren c g s n ps st = (out, st') \<Longrightarrow> groupsOk g \<Longrightarrow>
     set ps \<subseteq> set (orEmpty (map_of g j)) \<Longrightarrow>
     trace st' = trace st @ evs \<Longrightarrow> \<forall>ev\<in>set evs. \<forall>k. keysOk g k ev"
proof (induction c g s n k st and c g s n ps st arbitrary: out st' evs and out st' evs j
    rule: processLevel_processChildren.induct)
  case (1 c g s k st)
  then show ?case by simp
next
  case (2 c g s n k st)
  let ?pid = "syncedPages st k"
  let ?ps = "orEmpty (map_of g k)"
  let ?f = "LevelFetch k ?pid"
  obtain res w where gc: "getChildPages c ?pid (world st) = (res, w)"
    by (cases "getChildPages c ?pid (world st)")
  have kf: "keysOk g k ?f"
    by (simp add: keysOk_def)
  show ?case
  proof (cases res)
    case (Inl err)
    then have "st' = called ?f w st"
      using "2.prems"(1) gc by (simp add: Let_def)
    then have "evs = [?f]"
      using "2.prems"(3) by (simp add: called_def)
    then show ?thesis using kf by simp
  next
    case (Inr rps)
    from processLevel_step [OF "2.prems"(1) gc [unfolded Inr]] obtain o2 st2 where
      su: "syncUnion c (buildUnion ?pid ?ps rps) (called ?f w st) = (o2, st2)" and
      nx: "if o2 = Done then processChildren c g s n ?ps st2 = (out, st') else out = o2 \<and> st' = st2"
      by blast
    from syncUnion_ran [OF su] obtain own where
      o: "ran (called ?f w st) st2 own"
        "list_all2 isSyncOf (take (length own) (buildUnion ?pid ?ps rps)) own"
      by blast
    have t2: "trace st2 = trace st @ ?f # own"
      using o(1) by (simp add: ran_def called_def)
    have ko: "\<forall>ev\<in>set own. keysOk g k ev"
      using keysOk_sync [OF o(2)] .
    show ?thesis
    proof (cases "o2 = Done")
      case False
      then have "st' = st2" using nx by simp
      then have "evs = ?f # own" using "2.prems"(3) t2 by simp
      then show ?thesis using kf ko by simp
    next
      case True
      then have pc: "processChildren c g s n ?ps st2 = (out, st')" using nx by simp
      from process_ran(2) [OF pc "2.prems"(2)] obtain rest where
        r: "ran st2 st' rest" by blast
      then have tr: "trace st' = trace st2 @ rest" by (simp add: ran_def)
      have "\<forall>ev\<in>set rest. \<forall>k. keysOk g k ev"
        using "2.IH" [OF refl refl gc [symmetric] Inr su [symmetric] True pc "2.prems"(2) subset_refl tr] .
      moreover have "evs = ?f # own @ rest"
        using "2.prems"(3) t2 tr by simp
      ultimately show ?thesis using kf ko by auto
    qed
  qed
next
  case (3 c g s n st)
  then show ?case by simp
next
  case (4 c g s n p ps st)
  have pin: "p \<in> set (orEmpty (map_of g j))" and sub: "set ps \<subseteq> set (orEmpty (map_of g j))"
    using "4.prems"(3) by auto
  show ?case
  proof (cases "map_of s (title p) \<noteq> None")
    case False
    then have "processChildren c g s n ps st = (out, st')"
      using "4.prems"(1) by simp
    from "4.IH"(3) [OF False this "4.prems"(2) sub "4.prems"(4)] show ?thesis .
  next
    case True
    obtain o1 st1 where pl: "processLevel c g s n (Some (title p)) st = (o1, st1)"
      by (cases "processLevel c g s n (Some (title p)) st")
    from process_ran(1) [OF pl "4.prems"(2)] obtain e1 where
      e1: "ran st st1 e1" by blast
    then have t1: "trace st1 = trace st @ e1" by (simp add: ran_def)
    have k1: "\<forall>ev\<in>set e1. \<forall>k. keysOk g k ev"
      using "4.IH"(1) [OF True pl "4.prems"(2) t1] keysOk_weaken [OF _ pin] by blast
    show ?thesis
    proof (cases "o1 = Done")
      case False
      then have "st' = st1"
        using "4.prems"(1) True pl by (cases o1) simp_all
      then have "evs = e1" using "4.prems"(4) t1 by simp
      then show ?thesis using k1 by simp
    next
      case d: True
      then have pc: "processChildren c g s n ps st1 = (out, st')"
        using "4.prems"(1) True pl by simp
      from process_ran(2) [OF pc "4.prems"(2)] obtain e2 where
        e2: "ran st1 st' e2" by blast
      then have t2: "trace st' = trace st1 @ e2" by (simp add: ran_def)
      have "\<forall>ev\<in>set e2. \<forall>k. keysOk g k ev"
        using "4.IH"(2) [OF True pl [symmetric] d pc "4.prems"(2) sub t2] .
      moreover have "evs = e1 @ e2"
        using "4.prems"(4) t1 t2 by simp
      ultimately show ?thesis using k1 by auto
    qed
  qed
qed

lemma fetchAfter_in:
  "fetchAfter cur evs = Some (k, pid) \<Longrightarrow> cur = Some (k, pid) \<or> LevelFetch k pid \<in> set evs"
  by (induction cur evs rule: fetchAfter.induct) auto

text \<open>Every local page a run of \<^verbatim>\<open>syncPages\<close> syncs belongs to the root level or to the
  level named by the title of a local page.\<close>

lemma syncPages_levels:
  assumes "syncPages c fuel home lps st = (out, st')"
  shows "\<exists>evs. trace st' = trace st @ evs \<and>
     (\<forall>ev\<in>set evs. \<forall>lp. syncedLocal ev = Some lp \<longrightarrow>
        parentKeyOf lp = None \<or> parentKeyOf lp \<in> set (map (\<lambda>p. Some (title p)) lps))"
proof -
  let ?g = "fst (groupPages lps)"
  let ?st0 = "st\<lparr>syncedPages := (\<lambda>k. None)(None := home)\<rparr>"
  have run: "processLevel c ?g (snd (groupPages lps)) fuel None ?st0 = (out, st')"
    using assms by (simp add: syncPages_def split_beta)
  from process_ran(1) [OF run groupsOk_groupPages] obtain evs where
    v: "ran ?st0 st' evs" "\<forall>cur. levelsOk ((\<lambda>k. None)(None := home)) cur evs"
    by auto
  have t: "trace st' = trace st @ evs"
    using v(1) by (simp add: ran_def)
  have s: "\<forall>pre ev post lp. evs = pre @ ev # post \<longrightarrow> syncedLocal ev = Some lp \<longrightarrow>
        lastFetch pre = Some (parentKeyOf lp, parentPageId lp)"
    using v(2) unfolding lastFetch_def by (auto dest: levelsOk_sync)
  have "trace st' = trace ?st0 @ evs" using t by simp
  from process_keys(1) [OF run groupsOk_groupPages this] have
    k: "\<forall>ev\<in>set evs. keysOk ?g None ev" .
  have "\<forall>ev\<in>set evs. \<forall>lp. syncedLocal ev = Some lp \<longrightarrow>
        parentKeyOf lp = None \<or> parentKeyOf lp \<in> set (map (\<lambda>p. Some (title p)) lps)"
  proof (intro ballI allI impI)
    fix ev lp assume "ev \<in> set evs" and l: "syncedLocal ev = Some lp"
    then obtain pre post where e: "evs = pre @ ev # post"
      by (auto simp: in_set_conv_decomp)
    with s l have "lastFetch pre = Some (parentKeyOf lp, parentPageId lp)" by blast
    then have "LevelFetch (parentKeyOf lp) (parentPageId lp) \<in> set pre"
      using fetchAfter_in [of None pre] by (auto simp: lastFetch_def)
    then have "keysOk ?g None (LevelFetch (parentKeyOf lp) (parentPageId lp))"
      using k e by auto
    then show "parentKeyOf lp = None \<or> parentKeyOf lp \<in> set (map (\<lambda>p. Some (title p)) lps)"
      by (auto simp: keysOk_def groupPages_level)
  qed
  then show ?thesis using t by blast
qed

lemma syncThenId_events:
  "syncThenId c pg st = (res, st1) \<Longrightarrow>
     \<exists>ev. trace st1 = trace st @ [ev] \<and> syncedLocal ev = localOf pg"
  by (auto simp: syncThenId_def called_def split: prod.splits sum.splits sync_result.splits)

lemma findParentPage_events:
  "findParentPage c e st = (r, st1) \<Longrightarrow>
     \<exists>evs. trace st1 = trace st @ evs \<and> (\<forall>ev\<in>set evs. syncedLocal ev = None)"
  by (auto simp: findParentPage_def called_def
      split: option.splits if_splits prod.splits sum.splits)

lemma syncHome_events:
  assumes "syncHome c e r s None st = (res, st1)"
  shows "\<exists>evs. trace st1 = trace st @ evs \<and>
     (\<forall>ev\<in>set evs. \<forall>lp. syncedLocal ev = Some lp \<longrightarrow> parentKeyOf lp = None)"
proof -
  obtain r0 st0 where f: "findParentPage c e st = (r0, st0)"
    by (cases "findParentPage c e st")
  from findParentPage_events [OF f] obtain e0 where
    e0: "trace st0 = trace st @ e0" "\<forall>ev\<in>set e0. syncedLocal ev = None"
    by blast
  show ?thesis
  proof (cases r0)
    case (Inl err)
    then have "st1 = st0" using assms f by (simp add: syncHome_def)
    then show ?thesis using e0 by auto
  next
    case (Inr parentId)
    obtain r2 w where g: "findPage c s (world st0) = (r2, w)"
      by (cases "findPage c s (world st0)")
    let ?st2 = "called (FindPage s) w st0"
    have t2: "trace ?st2 = trace st @ e0 @ [FindPage s]"
      using e0(1) by (simp add: called_def)
    consider (stop) "st1 = ?st2"
      | (go) pg lp where "syncThenId c pg ?st2 = (res, st1)" "localOf pg = Some lp" "parentPath lp = None"
      using assms f Inr g
      by (auto simp: syncHome_def Let_def split: sum.splits option.splits if_splits)
    then show ?thesis
    proof cases
      case stop
      then show ?thesis using t2 e0(2) by auto
    next
      case go
      from syncThenId_events [OF go(1)] obtain ev where
        "trace st1 = trace ?st2 @ [ev]" "syncedLocal ev = localOf pg"
        by blast
      then show ?thesis
        using t2 e0(2) go(2,3) by (auto simp: parentKeyOf_def)
    qed
  qed
qed

text \<open>
  Claim C2 does not hold of the code. The section \<^verbatim>\<open>Guides\<close> has one child page and no
  page of its own. It gets its entry in the hierarchy and its child is in the page
  sequence, but \<^verbatim>\<open>processLevel\<close> descends only through a local page whose title is a
  section name: whatever the remote store answers, no run syncs a page of the section
  \<^verbatim>\<open>Guides\<close>. On an empty remote space the run completes after it has synced the home
  page and fetched the root level.
\<close>

theorem pages_of_pageless_section_not_synced:
  "getContext bareEnv ''.'' guidesYml = Inr (guidesCtx, guidesLog) \<and>
   ctx_sectionHierarchy guidesCtx = [(''Guides'', None)] \<and>
   ctx_pages guidesCtx = [guidesIntro] \<and>
   parentKeyOf guidesIntro = Some ''Guides'' \<and>
   (\<exists>evs. trace (snd (sync c bareEnv guidesYml fuel st)) = trace st @ evs \<and>
      list_all (\<lambda>ev. map_option parentKeyOf (syncedLocal ev) \<noteq> Some (Some ''Guides'')) evs) \<and>
   fst (sync memStore bareEnv guidesYml 5 (startOn emptyStore)) = Done \<and>
   trace (snd (sync memStore bareEnv guidesYml 5 (startOn emptyStore))) =
     [FindPage ''Site'', SyncPage (Local siteHome) (PageWithId (Some 1)), LevelFetch None (Some 1)]"
proof -
  have ev: "\<exists>evs. trace (snd (sync c bareEnv guidesYml fuel st)) = trace st @ evs \<and>
      list_all (\<lambda>ev. map_option parentKeyOf (syncedLocal ev) \<noteq> Some (Some ''Guides'')) evs"
  proof -
    obtain res st1 where h: "syncHome c bareEnv ''git/docs'' ''Site'' None st = (res, st1)"
      by (cases "syncHome c bareEnv ''git/docs'' ''Site'' None st")
    from syncHome_events [OF h] obtain e1 where
      e1: "trace st1 = trace st @ e1"
        "\<forall>ev\<in>set e1. \<forall>lp. syncedLocal ev = Some lp \<longrightarrow> parentKeyOf lp = None"
      by blast
    have l1: "list_all (\<lambda>ev. map_option parentKeyOf (syncedLocal ev) \<noteq> Some (Some ''Guides'')) e1"
      using e1(2) by (auto simp: list_all_iff)
    show ?thesis
    proof (cases res)
      case (Inl err)
      then have "snd (sync c bareEnv guidesYml fuel st) = st1"
        using h by (simp add: sync_def bare_getContext guidesCtx_def)
      then show ?thesis using e1(1) l1 by auto
    next
      case (Inr home)
      obtain out st2 where p: "syncPages c fuel home [guidesIntro] st1 = (out, st2)"
        by (cases "syncPages c fuel home [guidesIntro] st1")
      from syncPages_levels [OF p] obtain e2 where
        e2: "trace st2 = trace st1 @ e2"
          "\<forall>ev\<in>set e2. \<forall>lp. syncedLocal ev = Some lp \<longrightarrow>
             parentKeyOf lp = None \<or> parentKeyOf lp \<in> set (map (\<lambda>p. Some (title p)) [guidesIntro])"
        by blast
      have l2: "list_all (\<lambda>ev. map_option parentKeyOf (syncedLocal ev) \<noteq> Some (Some ''Guides'')) e2"
        using e2(2) by (auto simp: list_all_iff guidesIntro_def)
      have "snd (sync c bareEnv guidesYml fuel st) = st2"
        using h Inr p by (simp add: sync_def bare_getContext guidesCtx_def)
      then show ?thesis using e1(1) e2(1) l1 l2 by auto
    qed
  qed
  have "getContext bareEnv ''.'' guidesYml = Inr (guidesCtx, guidesLog)"
    by (rule bare_getContext)
  moreover have "ctx_sectionHierarchy guidesCtx = [(''Guides'', None)]" "ctx_pages guidesCtx = [guidesIntro]"
    by (simp_all add: guidesCtx_def)
  moreover have "parentKeyOf guidesIntro = Some ''Guides''"
    by (simp add: parentKeyOf_def guidesIntro_def)
  moreover have "fst (sync memStore bareEnv guidesYml 5 (startOn emptyStore)) = Done"
    by code_simp
  moreover have "trace (snd (sync memStore bareEnv guidesYml 5 (startOn emptyStore))) =
     [FindPage ''Site'', SyncPage (Local siteHome) (PageWithId (Some 1)), LevelFetch None (Some 1)]"
    by code_simp
  ultimately show ?thesis using ev by blast
qed

end
